theory Spec2Isabelle
  imports Main "HOL-Library.AList" "HOL-Library.Sublist"
begin

section \<open>Directory mirroring over a framed message protocol\<close>

text \<open>
  A shallow embedding of the block codec, the directory action handler
  (\<^verbatim>\<open>common/fileactions.py\<close>), the client's diff and reconciliation steps
  (\<^verbatim>\<open>client/client_requests.py\<close>) and the wire framing
  (\<^verbatim>\<open>common/message.py\<close>).

  Conventions of the model:
  \<^item> a Python \<^verbatim>\<open>bytes\<close> value is a list of 8-bit characters;
  \<^item> a \<^verbatim>\<open>dict\<close> is an association list in insertion order with distinct keys
    (\<open>AList.update\<close> stores a key, \<open>map_of\<close> looks one up);
  \<^item> a raised exception is \<open>Inl\<close> of the exception's class, a returned value is \<open>Inr\<close>;
  \<^item> the file system is a store from paths to regular files and directories, the
    paths being lists of names counted from the root, each path stored once; it has
    no links, every entry may be read and written, and the working directory of the
    process is the root.
    A path text is resolved name by name as Linux does it, with its limits of 255
    bytes for a name and 4096 bytes for a path;
  \<^item> \<^verbatim>\<open>Path.exists\<close> is the one of CPython 3.8 to 3.13, which lets an error other
    than a missing entry pass;
  \<^item> SHA-256 is a parameter \<open>sha\<close> of every function that hashes; base64 text is
    represented by the bytes it stands for; calls of the logger are left out.
\<close>

subsection \<open>Data\<close>

type_synonym bytes = string

datatype error =
    FileActionHandlerException
  | TypeError
  | AttributeError
  | KeyError
  | ValueError
  | LookupError
  | RuntimeError
  | OSError
  | FileNotFoundError
  | IsADirectoryError
  | NotADirectoryError
  | StructError


datatype fsnode = File bytes | Directory

type_synonym path = "string list"

type_synonym filesystem = "(path \<times> fsnode) list"

datatype Action =
    ENUMERATE_REMOTE_DIR_ACTION
  | NEW_FILE_ACTION
  | MOVED_FILE_ACTION
  | DELETED_FILE_ACTION
  | FILE_RECIPE_ACTION
  | UPDATED_FILE_ACTION

fun action_value :: "Action \<Rightarrow> int" where
  "action_value ENUMERATE_REMOTE_DIR_ACTION = 1"
| "action_value NEW_FILE_ACTION = 2"
| "action_value MOVED_FILE_ACTION = 3"
| "action_value DELETED_FILE_ACTION = 4"
| "action_value FILE_RECIPE_ACTION = 5"
| "action_value UPDATED_FILE_ACTION = 6"

text \<open>Base64 text, represented by the bytes it encodes.\<close>

datatype b64 = B64 bytes

fun b64decode :: "b64 \<Rightarrow> bytes" where
  "b64decode (B64 content) = content"

definition b64encode :: "bytes \<Rightarrow> b64" where
  "b64encode content = B64 content"

text \<open>
  A key of a dictionary that has travelled through JSON or not: Python compares an
  \<^verbatim>\<open>int\<close> key and a \<^verbatim>\<open>str\<close> key as different, whatever the string spells.
\<close>

datatype pykey = IntKey int | StrKey string

text \<open>A row of a directory listing: \<^verbatim>\<open>dict(filename=, file_size=, sha256=)\<close>.\<close>

record file_entry =
  filename :: string
  file_size :: nat
  sha256 :: string

text \<open>\<^verbatim>\<open>recipe_info\<close> of a FileRecipe response, over the type of the recipe's keys.\<close>

record 'k recipe_info =
  recipe_filename :: string
  recipe_block_size :: int
  hash_algorithm :: string
  recipe :: "('k \<times> string) list"

text \<open>
  \<^verbatim>\<open>recipe_info\<close> of an UpdateFile request: filename, block size, changed blocks.
  A key of \<open>update_blocks\<close> is the integer that \<^verbatim>\<open>int(k)\<close> makes of the key sent.
\<close>

record update_info =
  update_filename :: string
  update_block_size :: int
  update_blocks :: "(int \<times> b64) list"

text \<open>
  The \<^verbatim>\<open>data\<close> dictionary of a request. Every key is read with \<^verbatim>\<open>.get\<close>, which
  gives \<^verbatim>\<open>None\<close> for a key that is absent.
\<close>

record request_data =
  data_filename :: "string option"
  filedata :: "b64 option"
  source_filename :: "string option"
  destination_filename :: "string option"
  data_recipe_info :: "update_info option"

record request =
  action :: int
  data :: "request_data option"

text \<open>What a handler method returns: one of the three dictionaries, or \<^verbatim>\<open>False\<close>.\<close>

datatype result =
    StatusMsg Action string
  | DirListing Action int "file_entry list"
  | FileRecipe Action "int recipe_info"
  | PyFalse

text \<open>\<^verbatim>\<open>dict(response=result)\<close>.\<close>

datatype response = Response result

text \<open>The handler; \<open>directory\<close> is the text of its \<^verbatim>\<open>Path\<close>.\<close>

record FileActionHandler =
  directory :: string
  handler_block_size :: int

subsection \<open>Paths\<close>

text \<open>\<^verbatim>\<open>text.split('/')\<close>.\<close>

fun split_slash :: "string \<Rightarrow> string list" where
  "split_slash [] = [[]]"
| "split_slash (c # cs) =
     (if c = CHR ''/'' then [] # split_slash cs
      else (case split_slash cs of
              [] \<Rightarrow> [[c]]
            | p # ps \<Rightarrow> (c # p) # ps))"

text \<open>\<^verbatim>\<open>'/'.join(parts)\<close>.\<close>

fun join_slash :: "string list \<Rightarrow> string" where
  "join_slash [] = []"
| "join_slash [p] = p"
| "join_slash (p # p' # ps) = p @ ''/'' @ join_slash (p' # ps)"

definition is_absolute :: "string \<Rightarrow> bool" where
  "is_absolute text = (take 1 text = ''/'')"

text \<open>\<^verbatim>\<open>os.path.join(a, b)\<close>: the text as it is, no part of it normalised.\<close>

definition os_path_join :: "string \<Rightarrow> string \<Rightarrow> string" where
  "os_path_join a b =
     (if is_absolute b then b
      else if a = [] \<or> last a = CHR ''/'' then a @ b
      else a @ ''/'' @ b)"

text \<open>
  \<^verbatim>\<open>str(Path(a, b))\<close>: an absolute \<open>b\<close> stands alone, otherwise the names of \<open>b\<close>
  follow those of \<open>a\<close>; empty names and the name \<^verbatim>\<open>.\<close> are dropped, the name \<^verbatim>\<open>..\<close>
  is kept; exactly two leading slashes are kept.
\<close>

definition Path :: "string \<Rightarrow> string \<Rightarrow> string" where
  "Path a b =
     (let anchor = (if is_absolute b then b else a);
          names = (if is_absolute b then split_slash b else split_slash a @ split_slash b);
          parts = filter (\<lambda>p. p \<noteq> [] \<and> p \<noteq> ''.'') names;
          root = (if \<not> is_absolute anchor then []
                  else if take 2 anchor = ''//'' \<and> take 3 anchor \<noteq> ''///'' then ''//''
                  else ''/'')
      in if root = [] \<and> parts = [] then ''.'' else root @ join_slash parts)"

subsection \<open>The file system\<close>

definition NAME_MAX :: nat where
  "NAME_MAX = 255"

definition PATH_MAX :: nat where
  "PATH_MAX = 4096"

text \<open>The entry at a path; the root is a directory.\<close>

definition lookup :: "filesystem \<Rightarrow> path \<Rightarrow> fsnode option" where
  "lookup fs p = (if p = [] then Some Directory else map_of fs p)"

text \<open>
  The walk along the names of a path text, from the place \<open>cur\<close>. A name is looked
  up in \<open>cur\<close>, which must be there and be a directory; the empty name and \<^verbatim>\<open>.\<close> stay,
  \<^verbatim>\<open>..\<close> goes to the parent, the parent of the root being the root. The place the
  last name leads to is not looked at.
\<close>

fun walk :: "filesystem \<Rightarrow> path \<Rightarrow> string list \<Rightarrow> error + path" where
  "walk fs cur [] = Inr cur"
| "walk fs cur (name # names) =
     (case lookup fs cur of
        None \<Rightarrow> Inl FileNotFoundError
      | Some (File content) \<Rightarrow> Inl NotADirectoryError
      | Some Directory \<Rightarrow>
          if name = [] \<or> name = ''.'' then walk fs cur names
          else if name = ''..'' then walk fs (butlast cur) names
          else if NAME_MAX < length name then Inl OSError
          else walk fs (cur @ [name]) names)"

text \<open>
  The place a path text names. Python refuses a text with a NUL byte with
  ValueError before the system is asked; the system refuses the empty text with
  ENOENT and a text of \<open>PATH_MAX\<close> bytes or more with ENAMETOOLONG, an OSError.
\<close>

definition resolve :: "filesystem \<Rightarrow> string \<Rightarrow> error + path" where
  "resolve fs text =
     (if CHR 0x00 \<in> set text then Inl ValueError
      else if text = [] then Inl FileNotFoundError
      else if PATH_MAX \<le> length text then Inl OSError
      else walk fs [] (split_slash text))"

text \<open>\<^verbatim>\<open>os.stat(text)\<close>, as far as the kind and the content of the entry.\<close>

definition stat :: "filesystem \<Rightarrow> string \<Rightarrow> error + fsnode" where
  "stat fs text =
     (case resolve fs text of
        Inl e \<Rightarrow> Inl e
      | Inr p \<Rightarrow>
          (case lookup fs p of
             None \<Rightarrow> Inl FileNotFoundError
           | Some node \<Rightarrow> Inr node))"

text \<open>\<^verbatim>\<open>os.path.exists(text)\<close>: every error of \<^verbatim>\<open>os.stat\<close> counts as absence.\<close>

definition os_path_exists :: "filesystem \<Rightarrow> string \<Rightarrow> bool" where
  "os_path_exists fs text = (case stat fs text of Inl e \<Rightarrow> False | Inr node \<Rightarrow> True)"

text \<open>
  \<^verbatim>\<open>file_path.exists()\<close>: ENOENT, ENOTDIR and ValueError count as absence, any other
  error is raised.
\<close>

definition path_exists :: "filesystem \<Rightarrow> string \<Rightarrow> error + bool" where
  "path_exists fs text =
     (case stat fs text of
        Inr node \<Rightarrow> Inr True
      | Inl e \<Rightarrow>
          if e = FileNotFoundError \<or> e = NotADirectoryError \<or> e = ValueError then Inr False
          else Inl e)"

text \<open>\<^verbatim>\<open>file_path.open('rb')\<close>, up to the content that is there to read.\<close>

definition open_rb :: "filesystem \<Rightarrow> string \<Rightarrow> error + bytes" where
  "open_rb fs text =
     (case stat fs text of
        Inl e \<Rightarrow> Inl e
      | Inr Directory \<Rightarrow> Inl IsADirectoryError
      | Inr (File content) \<Rightarrow> Inr content)"

text \<open>
  \<^verbatim>\<open>file_path.open('wb')\<close> and \<^verbatim>\<open>file_path.open('wb+')\<close>: the place of the file that
  is created or truncated. A new file needs its directory.
\<close>

definition open_wb :: "filesystem \<Rightarrow> string \<Rightarrow> error + path" where
  "open_wb fs text =
     (case resolve fs text of
        Inl e \<Rightarrow> Inl e
      | Inr p \<Rightarrow>
          (case lookup fs p of
             Some Directory \<Rightarrow> Inl IsADirectoryError
           | Some (File content) \<Rightarrow> Inr p
           | None \<Rightarrow>
               if lookup fs (butlast p) = Some Directory then Inr p
               else Inl FileNotFoundError))"

text \<open>Opening for writing creates or truncates the file; then the content is written.\<close>

definition write_file :: "filesystem \<Rightarrow> string \<Rightarrow> bytes \<Rightarrow> error + filesystem" where
  "write_file fs text content =
     (case open_wb fs text of
        Inl e \<Rightarrow> Inl e
      | Inr p \<Rightarrow> Inr (AList.update p (File content) fs))"

text \<open>\<^verbatim>\<open>file_path.unlink()\<close> refuses a directory.\<close>

definition unlink :: "filesystem \<Rightarrow> string \<Rightarrow> error + filesystem" where
  "unlink fs text =
     (case resolve fs text of
        Inl e \<Rightarrow> Inl e
      | Inr p \<Rightarrow>
          (case lookup fs p of
             None \<Rightarrow> Inl FileNotFoundError
           | Some Directory \<Rightarrow> Inl IsADirectoryError
           | Some (File content) \<Rightarrow> Inr (AList.delete p fs)))"

text \<open>
  \<^verbatim>\<open>src_file.rename(dest_file)\<close>. The entry and, for a directory, everything below it
  moves to the new place. A file replaces a file and a directory an empty directory;
  a directory cannot move below itself, nor can the root move.
\<close>

definition below :: "path \<Rightarrow> path \<Rightarrow> bool" where
  "below base p = (length base < length p \<and> take (length base) p = base)"

definition rename :: "filesystem \<Rightarrow> string \<Rightarrow> string \<Rightarrow> error + filesystem" where
  "rename fs src dst =
     (case resolve fs src of
        Inl e \<Rightarrow> Inl e
      | Inr ps \<Rightarrow>
          (case lookup fs ps of
             None \<Rightarrow> Inl FileNotFoundError
           | Some node \<Rightarrow>
               (case resolve fs dst of
                  Inl e \<Rightarrow> Inl e
                | Inr pd \<Rightarrow>
                    if pd = ps then Inr fs
                    else if ps = [] \<or> below ps pd then Inl OSError
                    else
                      (let moved = map (\<lambda>(p, n). if p = ps \<or> below ps p
                                                  then (pd @ drop (length ps) p, n) else (p, n))
                                     (AList.delete pd fs)
                       in case (node, lookup fs pd) of
                            (File content, Some Directory) \<Rightarrow> Inl IsADirectoryError
                          | (Directory, Some (File content)) \<Rightarrow> Inl NotADirectoryError
                          | (Directory, Some Directory) \<Rightarrow>
                              if pd = [] \<or> (\<exists>p \<in> fst ` set fs. below pd p) then Inl OSError
                              else Inr moved
                          | (File content, Some (File old)) \<Rightarrow> Inr moved
                          | (_, None) \<Rightarrow>
                              if lookup fs (butlast pd) = Some Directory then Inr moved
                              else Inl FileNotFoundError))))"

subsection \<open>Block codec\<close>

text \<open>
  \<^verbatim>\<open>f.read(n)\<close> on a file opened for reading bytes: at most \<open>n\<close> bytes, everything
  that is left when \<open>n\<close> is \<open>-1\<close>, and ValueError for any other negative \<open>n\<close>. The
  result is what was read and what is left.
\<close>

definition file_read :: "int \<Rightarrow> bytes \<Rightarrow> error + bytes \<times> bytes" where
  "file_read n rest =
     (if n < - 1 then Inl ValueError
      else if n = - 1 then Inr (rest, [])
      else Inr (take (nat n) rest, drop (nat n) rest))"

text \<open>The blocks \<^verbatim>\<open>iter(lambda: f.read(block_size), b"")\<close> yields.\<close>

function read_blocks :: "int \<Rightarrow> bytes \<Rightarrow> error + bytes list" where
  "read_blocks block_size rest =
     (case file_read block_size rest of
        Inl e \<Rightarrow> Inl e
      | Inr (block, rest') \<Rightarrow>
          if block = [] then Inr []
          else (case read_blocks block_size rest' of
                  Inl e \<Rightarrow> Inl e
                | Inr blocks \<Rightarrow> Inr (block # blocks)))"
  by pat_completeness auto
termination
  by (relation "measure (\<lambda>(n, rest). length rest)") (auto simp: file_read_def split: if_splits)

declare read_blocks.simps [simp del]

text \<open>The loop body \<^verbatim>\<open>blocks[block_counter] = v; block_counter += 1\<close>.\<close>

fun block_dict :: "int \<Rightarrow> 'a list \<Rightarrow> (int \<times> 'a) list \<Rightarrow> (int \<times> 'a) list" where
  "block_dict block_counter [] blocks = blocks"
| "block_dict block_counter (block # rest) blocks =
     block_dict (block_counter + 1) rest (AList.update block_counter block blocks)"

text \<open>
  The three loops over the blocks of an open file, on the content of the file:
  the digest of all blocks, the digest of each block, and the blocks themselves.
\<close>

definition hash_file :: "(bytes \<Rightarrow> string) \<Rightarrow> bytes \<Rightarrow> int \<Rightarrow> error + string" where
  "hash_file sha content block_size =
     (case read_blocks block_size content of
        Inl e \<Rightarrow> Inl e
      | Inr blocks \<Rightarrow> Inr (sha (concat blocks)))"

definition hashed_block_list ::
  "(bytes \<Rightarrow> string) \<Rightarrow> bytes \<Rightarrow> int \<Rightarrow> error + (int \<times> string) list" where
  "hashed_block_list sha content block_size =
     (case read_blocks block_size content of
        Inl e \<Rightarrow> Inl e
      | Inr blocks \<Rightarrow> Inr (block_dict 0 (map sha blocks) []))"

definition block_list :: "bytes \<Rightarrow> int \<Rightarrow> error + (int \<times> bytes) list" where
  "block_list content block_size =
     (case read_blocks block_size content of
        Inl e \<Rightarrow> Inl e
      | Inr blocks \<Rightarrow> Inr (block_dict 0 blocks []))"

definition create_hashed_block_list ::
  "(bytes \<Rightarrow> string) \<Rightarrow> filesystem \<Rightarrow> string \<Rightarrow> int \<Rightarrow> error + (int \<times> string) list" where
  "create_hashed_block_list sha fs file_path block_size =
     (case open_rb fs file_path of
        Inl e \<Rightarrow> Inl e
      | Inr content \<Rightarrow> hashed_block_list sha content block_size)"

definition create_block_list ::
  "filesystem \<Rightarrow> string \<Rightarrow> int \<Rightarrow> error + (int \<times> bytes) list" where
  "create_block_list fs file_path block_size =
     (case open_rb fs file_path of
        Inl e \<Rightarrow> Inl e
      | Inr content \<Rightarrow> block_list content block_size)"

text \<open>
  What \<^verbatim>\<open>for key in sorted(blocks.keys()): f.write(blocks[key])\<close> writes.
\<close>

definition blks_content :: "(int \<times> bytes) list \<Rightarrow> bytes" where
  "blks_content blks = concat (List.map_filter (map_of blks) (sort (map fst blks)))"

definition create_file_from_blks ::
  "filesystem \<Rightarrow> string \<Rightarrow> (int \<times> bytes) list \<Rightarrow> error + filesystem" where
  "create_file_from_blks fs file_path blks = write_file fs file_path (blks_content blks)"

subsection \<open>Directory listing\<close>

text \<open>
  \<^verbatim>\<open>directory_path.glob('**/*')\<close>: the pattern \<^verbatim>\<open>**\<close> stands for the directory and
  every subdirectory below it, so the result holds every entry at every depth: each
  entry below the directory that is reached through directories only. A path that
  is no directory has no entries; \<^verbatim>\<open>glob\<close> asks \<^verbatim>\<open>is_dir\<close> first, which treats
  errors as \<^verbatim>\<open>exists\<close> does.
\<close>

definition reachable :: "filesystem \<Rightarrow> path \<Rightarrow> path \<Rightarrow> bool" where
  "reachable fs base p =
     (below base p
      \<and> list_all (\<lambda>k. lookup fs (take k p) = Some Directory) [length base..<length p])"

definition glob_all :: "filesystem \<Rightarrow> string \<Rightarrow> error + (path \<times> fsnode) list" where
  "glob_all fs directory_path =
     (case resolve fs directory_path of
        Inl e \<Rightarrow>
          if e = FileNotFoundError \<or> e = NotADirectoryError \<or> e = ValueError then Inr []
          else Inl e
      | Inr base \<Rightarrow> Inr (filter (\<lambda>(p, node). reachable fs base p) fs))"

fun is_file :: "path \<times> fsnode \<Rightarrow> bool" where
  "is_file (p, File content) = True"
| "is_file (p, Directory) = False"

text \<open>
  \<^verbatim>\<open>dict(filename=f.name, file_size=f.stat().st_size, sha256=hash_file(f, block_size))\<close>
  for an entry of the listing.
\<close>

fun listing_row ::
  "(bytes \<Rightarrow> string) \<Rightarrow> int \<Rightarrow> path \<times> fsnode \<Rightarrow> error + file_entry" where
  "listing_row sha block_size (p, File content) =
     (case hash_file sha content block_size of
        Inl e \<Rightarrow> Inl e
      | Inr digest \<Rightarrow>
          Inr \<lparr>filename = last p, file_size = length content, sha256 = digest\<rparr>)"
| "listing_row sha block_size (p, Directory) = Inl IsADirectoryError"

text \<open>A loop that appends one row for each item, until a row raises.\<close>

fun rows :: "('a \<Rightarrow> error + 'b) \<Rightarrow> 'a list \<Rightarrow> error + 'b list" where
  "rows f [] = Inr []"
| "rows f (x # xs) =
     (case f x of
        Inl e \<Rightarrow> Inl e
      | Inr y \<Rightarrow>
          (case rows f xs of
             Inl e \<Rightarrow> Inl e
           | Inr ys \<Rightarrow> Inr (y # ys)))"

definition enumerate_directory ::
  "(bytes \<Rightarrow> string) \<Rightarrow> filesystem \<Rightarrow> string \<Rightarrow> int \<Rightarrow> error + file_entry list" where
  "enumerate_directory sha fs directory_path block_size =
     (case glob_all fs directory_path of
        Inl e \<Rightarrow> Inl e
      | Inr entries \<Rightarrow>
          (let dir_listing = filter is_file entries;
               file_list = filter is_file dir_listing
           in rows (listing_row sha block_size) file_list))"

subsection \<open>The directory action handler\<close>

definition create_new_file ::
  "FileActionHandler \<Rightarrow> filesystem \<Rightarrow> string \<Rightarrow> bytes \<Rightarrow> (error + result) \<times> filesystem" where
  "create_new_file h fs fname file_data =
     (let test_file_name = os_path_join (directory h) fname
      in
        if os_path_exists fs test_file_name then
          (Inr (StatusMsg NEW_FILE_ACTION
                 (''Filename '' @ fname @ '' already exists, cannot save as new'')), fs)
        else
          (let file_path = Path (directory h) fname
           in case write_file fs file_path file_data of
                Inl e \<Rightarrow> (Inl e, fs)
              | Inr fs' \<Rightarrow>
                  (Inr (StatusMsg NEW_FILE_ACTION (''Successfully uploaded '' @ fname)), fs')))"

definition move_file ::
  "FileActionHandler \<Rightarrow> filesystem \<Rightarrow> string \<Rightarrow> string \<Rightarrow> (error + result) \<times> filesystem" where
  "move_file h fs source_name destination_name =
     (let src_file = Path (directory h) source_name;
          dest_file = Path (directory h) destination_name
      in case path_exists fs src_file of
           Inl e \<Rightarrow> (Inl e, fs)
         | Inr False \<Rightarrow>
             (Inr (StatusMsg MOVED_FILE_ACTION
                    (''The source file '' @ src_file
                      @ '' doesn't exist and cannot be renamed'')), fs)
         | Inr True \<Rightarrow>
             (case path_exists fs dest_file of
                Inl e \<Rightarrow> (Inl e, fs)
              | Inr True \<Rightarrow> (Inr PyFalse, fs)
              | Inr False \<Rightarrow>
                  (case rename fs src_file dest_file of
                     Inl e \<Rightarrow> (Inl e, fs)
                   | Inr fs' \<Rightarrow>
                       (Inr (StatusMsg MOVED_FILE_ACTION
                              (''Successfully moved file '' @ src_file @ '' to '' @ dest_file)),
                        fs'))))"

definition delete_file ::
  "FileActionHandler \<Rightarrow> filesystem \<Rightarrow> string \<Rightarrow> (error + result) \<times> filesystem" where
  "delete_file h fs fname =
     (let file_path = Path (directory h) fname
      in case path_exists fs file_path of
           Inl e \<Rightarrow> (Inl e, fs)
         | Inr True \<Rightarrow>
             (case unlink fs file_path of
                Inl e \<Rightarrow> (Inl e, fs)
              | Inr fs' \<Rightarrow>
                  (Inr (StatusMsg DELETED_FILE_ACTION (''Successfully deleted '' @ fname)), fs'))
         | Inr False \<Rightarrow>
             (Inr (StatusMsg DELETED_FILE_ACTION
                    (''Filename '' @ fname @ '' doesn't exist, cannot delete'')), fs))"

definition handler_enumerate_directory ::
  "(bytes \<Rightarrow> string) \<Rightarrow> FileActionHandler \<Rightarrow> filesystem \<Rightarrow> error + result" where
  "handler_enumerate_directory sha h fs =
     (case enumerate_directory sha fs (directory h) (handler_block_size h) of
        Inl e \<Rightarrow> Inl e
      | Inr files \<Rightarrow>
          Inr (DirListing ENUMERATE_REMOTE_DIR_ACTION (handler_block_size h) files))"

definition create_file_recipe ::
  "(bytes \<Rightarrow> string) \<Rightarrow> FileActionHandler \<Rightarrow> filesystem \<Rightarrow> string \<Rightarrow> error + result" where
  "create_file_recipe sha h fs fname =
     (let file_path = Path (directory h) fname
      in case path_exists fs file_path of
           Inl e \<Rightarrow> Inl e
         | Inr False \<Rightarrow> Inl FileActionHandlerException
         | Inr True \<Rightarrow>
             (case create_hashed_block_list sha fs file_path (handler_block_size h) of
                Inl e \<Rightarrow> Inl e
              | Inr hashes \<Rightarrow>
                  Inr (FileRecipe FILE_RECIPE_ACTION
                        \<lparr>recipe_filename = fname, recipe_block_size = handler_block_size h,
                         hash_algorithm = ''sha256'', recipe = hashes\<rparr>)))"

text \<open>\<^verbatim>\<open>{**a, **b}\<close>: the keys of \<open>a\<close> in their order, then the new keys of \<open>b\<close>; on a
  key of both the value of \<open>b\<close> stands.\<close>

definition dict_merge :: "('k \<times> 'v) list \<Rightarrow> ('k \<times> 'v) list \<Rightarrow> ('k \<times> 'v) list" where
  "dict_merge a b = fold (\<lambda>(k, v). AList.update k v) b a"

definition update_file ::
  "FileActionHandler \<Rightarrow> filesystem \<Rightarrow> update_info \<Rightarrow> (error + result) \<times> filesystem" where
  "update_file h fs info =
     (let fname = update_filename info;
          block_size = update_block_size info;
          blocks_to_update = dict_merge [] (map (\<lambda>(k, v). (k, b64decode v)) (update_blocks info));
          file_path = Path (directory h) fname
      in
        case path_exists fs file_path of
          Inl e \<Rightarrow> (Inl e, fs)
        | Inr False \<Rightarrow>
            (Inr (StatusMsg UPDATED_FILE_ACTION
                   (''The source file '' @ fname @ '' doesn't exist and cannot be updated'')), fs)
        | Inr True \<Rightarrow>
            (case create_block_list fs file_path block_size of
               Inl e \<Rightarrow> (Inl e, fs)
             | Inr file_blocks \<Rightarrow>
                 (let updated_blocks = dict_merge file_blocks blocks_to_update
                  in case create_file_from_blks fs file_path updated_blocks of
                       Inl e \<Rightarrow> (Inl e, fs)
                     | Inr fs' \<Rightarrow>
                         (Inr (StatusMsg UPDATED_FILE_ACTION (''Successfully updated '' @ fname)),
                          fs'))))"

text \<open>
  The merged mapping \<^verbatim>\<open>updated_blocks\<close> that \<^verbatim>\<open>update_file\<close> writes out when the
  target holds \<open>f\<close>.
\<close>

definition merged_blocks :: "bytes \<Rightarrow> update_info \<Rightarrow> error + (int \<times> bytes) list" where
  "merged_blocks f info =
     (case block_list f (update_block_size info) of
        Inl e \<Rightarrow> Inl e
      | Inr file_blocks \<Rightarrow>
          Inr (dict_merge file_blocks
                 (dict_merge [] (map (\<lambda>(k, v). (k, b64decode v)) (update_blocks info)))))"

text \<open>
  A block mapping is a valid chunking at a block size when its indices are
  \<open>0, 1, ..., k - 1\<close>, every block but the last has exactly the block size and the
  last block is not empty and not longer than the block size.
\<close>

fun full_blocks :: "int \<Rightarrow> bytes list \<Rightarrow> bool" where
  "full_blocks n [] = True"
| "full_blocks n [b] = (b \<noteq> [] \<and> int (length b) \<le> n)"
| "full_blocks n (b # b' # bs) = (int (length b) = n \<and> full_blocks n (b' # bs))"

definition valid_chunking :: "int \<Rightarrow> (int \<times> bytes) list \<Rightarrow> bool" where
  "valid_chunking n blks =
     (sort (map fst blks) = map int [0..<length blks]
      \<and> full_blocks n (List.map_filter (map_of blks) (sort (map fst blks))))"

text \<open>\<^verbatim>\<open>return dict(response=result)\<close>, reached only when no exception was raised.\<close>

fun respond :: "(error + result) \<times> filesystem \<Rightarrow> (error + response) \<times> filesystem" where
  "respond (Inl e, fs) = (Inl e, fs)"
| "respond (Inr r, fs) = (Inr (Response r), fs)"

text \<open>
  \<^verbatim>\<open>handle_request\<close>. A request without \<^verbatim>\<open>data\<close> fails at \<^verbatim>\<open>data.get\<close> with
  AttributeError, a missing filename fails where the path is built with TypeError. In
  the last branch \<^verbatim>\<open>dict(action, "Unknown file action ...")\<close> passes two positional
  arguments to \<^verbatim>\<open>dict\<close>, which accepts at most one and raises TypeError.
\<close>

definition handle_request ::
  "(bytes \<Rightarrow> string) \<Rightarrow> FileActionHandler \<Rightarrow> filesystem \<Rightarrow> request
     \<Rightarrow> (error + response) \<times> filesystem" where
  "handle_request sha h fs req =
     (if action_value ENUMERATE_REMOTE_DIR_ACTION = action req then
        respond (handler_enumerate_directory sha h fs, fs)
      else if action_value NEW_FILE_ACTION = action req then
        (case data req of
           None \<Rightarrow> (Inl AttributeError, fs)
         | Some d \<Rightarrow>
             (let file_contents = (case filedata d of None \<Rightarrow> [] | Some fd \<Rightarrow> b64decode fd)
              in case data_filename d of
                   None \<Rightarrow> (Inl TypeError, fs)
                 | Some fname \<Rightarrow> respond (create_new_file h fs fname file_contents)))
      else if action req = action_value MOVED_FILE_ACTION then
        (case data req of
           None \<Rightarrow> (Inl AttributeError, fs)
         | Some d \<Rightarrow>
             (case (source_filename d, destination_filename d) of
                (Some src_file, Some dest_file) \<Rightarrow> respond (move_file h fs src_file dest_file)
              | _ \<Rightarrow> (Inl TypeError, fs)))
      else if action req = action_value DELETED_FILE_ACTION then
        (case data req of
           None \<Rightarrow> (Inl AttributeError, fs)
         | Some d \<Rightarrow>
             (case data_filename d of
                None \<Rightarrow> (Inl TypeError, fs)
              | Some fname \<Rightarrow> respond (delete_file h fs fname)))
      else if action req = action_value FILE_RECIPE_ACTION then
        (case data req of
           None \<Rightarrow> (Inl AttributeError, fs)
         | Some d \<Rightarrow>
             (case data_filename d of
                None \<Rightarrow> (Inl TypeError, fs)
              | Some fname \<Rightarrow> respond (create_file_recipe sha h fs fname, fs)))
      else if action req = action_value UPDATED_FILE_ACTION then
        (case data req of
           None \<Rightarrow> (Inl AttributeError, fs)
         | Some d \<Rightarrow>
             (case data_recipe_info d of
                None \<Rightarrow> (Inl AttributeError, fs)
              | Some info \<Rightarrow> respond (update_file h fs info)))
      else (Inl TypeError, fs))"

text \<open>
  The server's writable event: \<^verbatim>\<open>ServerSideMessage.write\<close> calls \<^verbatim>\<open>handle_request\<close>
  and queues the response; an exception leaves \<^verbatim>\<open>process_events\<close> and the loop of
  \<^verbatim>\<open>run_server\<close> answers it with \<^verbatim>\<open>message.close()\<close>: nothing is sent.
\<close>

datatype connection = ResponseQueued response | ClosedOnError error

definition server_write_event ::
  "(bytes \<Rightarrow> string) \<Rightarrow> FileActionHandler \<Rightarrow> filesystem \<Rightarrow> request
     \<Rightarrow> connection \<times> filesystem" where
  "server_write_event sha h fs req =
     (case handle_request sha h fs req of
        (Inl e, fs') \<Rightarrow> (ClosedOnError e, fs')
      | (Inr content, fs') \<Rightarrow> (ResponseQueued content, fs'))"

text \<open>Whether a response payload carries the action code and a message.\<close>

fun is_status_message :: "response \<Rightarrow> bool" where
  "is_status_message (Response (StatusMsg a m)) = True"
| "is_status_message (Response r) = False"

subsection \<open>The client: block diff and reconciliation\<close>

record request_envelope =
  request_type :: string
  encoding :: string
  content :: request

definition create_request :: "int \<Rightarrow> request_data option \<Rightarrow> request_envelope" where
  "create_request act d =
     \<lparr>request_type = ''text/json'', encoding = ''utf-8'',
      content = \<lparr>action = act, data = d\<rparr>\<rparr>"

text \<open>A \<^verbatim>\<open>data\<close> dictionary with no key.\<close>

definition no_data :: request_data where
  "no_data = \<lparr>data_filename = None, filedata = None, source_filename = None,
              destination_filename = None, data_recipe_info = None\<rparr>"

text \<open>
  \<^verbatim>\<open>_update_file_by_recipe\<close>: the request it dispatches, none when the file does not
  exist locally; \<open>client_directory\<close> is the directory of the dispatcher. The local
  items carry \<^verbatim>\<open>int\<close> keys; the recipe's items carry the keys the response delivered.
\<close>

definition update_file_by_recipe ::
  "(bytes \<Rightarrow> string) \<Rightarrow> filesystem \<Rightarrow> string \<Rightarrow> pykey recipe_info
     \<Rightarrow> error + request_envelope option" where
  "update_file_by_recipe sha fs client_directory info =
     (let fname = recipe_filename info;
          block_size = recipe_block_size info;
          file_path = Path client_directory fname
      in
        case path_exists fs file_path of
          Inl e \<Rightarrow> Inl e
        | Inr False \<Rightarrow> Inr None
        | Inr True \<Rightarrow>
          (case create_hashed_block_list sha fs file_path block_size of
             Inl e \<Rightarrow> Inl e
           | Inr hash_blocks \<Rightarrow>
               (let src_blk_set = map (\<lambda>(k, v). (IntKey k, v)) hash_blocks;
                    dest_block_set = recipe info;
                    update_blocks_keys =
                      map fst (filter (\<lambda>item. item \<notin> set dest_block_set) src_blk_set)
                in case create_block_list fs file_path block_size of
                     Inl e \<Rightarrow> Inl e
                   | Inr src_blks \<Rightarrow>
                       (let update_blks =
                              map (\<lambda>(k, v). (k, b64encode v))
                                (filter (\<lambda>(k, v). IntKey k \<in> set update_blocks_keys) src_blks);
                            info' = \<lparr>update_filename = fname, update_block_size = block_size,
                                     update_blocks = update_blks\<rparr>
                        in Inr (Some (create_request (action_value UPDATED_FILE_ACTION)
                                       (Some (no_data\<lparr>data_recipe_info := Some info'\<rparr>))))))))"

text \<open>
  What \<^verbatim>\<open>json.dumps\<close> followed by \<^verbatim>\<open>json.load\<close> makes of a dictionary keyed by
  \<^verbatim>\<open>int\<close>: JSON object keys are strings, so every key comes back as its decimal text.
\<close>

definition digit_char :: "nat \<Rightarrow> char" where
  "digit_char d = ''0123456789'' ! d"

fun decimal :: "nat \<Rightarrow> string" where
  "decimal n = (if n < 10 then [digit_char n] else decimal (n div 10) @ [digit_char (n mod 10)])"

declare decimal.simps [simp del]

definition py_str_int :: "int \<Rightarrow> string" where
  "py_str_int i = (if i < 0 then ''-'' @ decimal (nat (- i)) else decimal (nat i))"

definition json_keys :: "(int \<times> 'v) list \<Rightarrow> (pykey \<times> 'v) list" where
  "json_keys d = map (\<lambda>(k, v). (StrKey (py_str_int k), v)) d"

definition received_recipe_info :: "int recipe_info \<Rightarrow> pykey recipe_info" where
  "received_recipe_info info =
     \<lparr>recipe_filename = recipe_filename info, recipe_block_size = recipe_block_size info,
      hash_algorithm = hash_algorithm info, recipe = json_keys (recipe info)\<rparr>"

text \<open>The block indices an UpdateFile request carries.\<close>

definition sent_indices :: "request_envelope option \<Rightarrow> int list" where
  "sent_indices r =
     (case r of
        None \<Rightarrow> []
      | Some env \<Rightarrow>
          (case data (content env) of
             None \<Rightarrow> []
           | Some d \<Rightarrow>
               (case data_recipe_info d of
                  None \<Rightarrow> []
                | Some info \<Rightarrow> map fst (update_blocks info))))"

text \<open>
  \<^verbatim>\<open>_directory_synch\<close>: the four lists it computes from the local and the remote
  listing, and the requests it then issues, in the order it issues them.
\<close>

record synch_lists =
  same_on_both :: "file_entry list"
  on_both_different :: "file_entry list"
  on_remote_only :: "file_entry list"
  on_local_only :: "file_entry list"

definition reconcile :: "file_entry list \<Rightarrow> file_entry list \<Rightarrow> synch_lists" where
  "reconcile local_dir_listing remote_file_info =
     (let same = filter (\<lambda>i. i \<in> set local_dir_listing) remote_file_info;
          diff_on_remote = filter (\<lambda>i. i \<notin> set local_dir_listing) remote_file_info;
          diff_on_local = filter (\<lambda>i. i \<notin> set remote_file_info) local_dir_listing;
          diff_remote_file_names = map filename diff_on_remote;
          diff_local_file_name = map filename diff_on_local
      in \<lparr>same_on_both = same,
          on_both_different =
            filter (\<lambda>file. filename file \<in> set diff_remote_file_names) diff_on_local,
          on_remote_only =
            filter (\<lambda>file. filename file \<notin> set diff_local_file_name) diff_on_remote,
          on_local_only =
            filter (\<lambda>file. filename file \<notin> set diff_remote_file_names) diff_on_local\<rparr>)"

datatype dispatched =
    update_file_request string
  | delete_file_request string
  | create_new_file_request string

definition directory_synch ::
  "(bytes \<Rightarrow> string) \<Rightarrow> filesystem \<Rightarrow> string \<Rightarrow> file_entry list \<Rightarrow> int
     \<Rightarrow> error + dispatched list" where
  "directory_synch sha fs client_directory remote_file_info block_size =
     (case enumerate_directory sha fs client_directory block_size of
        Inl e \<Rightarrow> Inl e
      | Inr local_dir_listing \<Rightarrow>
          (let lists = reconcile local_dir_listing remote_file_info
           in Inr (map (\<lambda>i. update_file_request (filename i)) (on_both_different lists)
                   @ map (\<lambda>i. delete_file_request (filename i)) (on_remote_only lists)
                   @ map (\<lambda>i. create_new_file_request (filename i)) (on_local_only lists))))"

text \<open>The filenames of each class of the reconciliation.\<close>

definition same_names :: "file_entry list \<Rightarrow> file_entry list \<Rightarrow> string set" where
  "same_names l r = filename ` set (same_on_both (reconcile l r))"

definition update_names :: "file_entry list \<Rightarrow> file_entry list \<Rightarrow> string set" where
  "update_names l r = filename ` set (on_both_different (reconcile l r))"

definition delete_remote_names :: "file_entry list \<Rightarrow> file_entry list \<Rightarrow> string set" where
  "delete_remote_names l r = filename ` set (on_remote_only (reconcile l r))"

definition upload_names :: "file_entry list \<Rightarrow> file_entry list \<Rightarrow> string set" where
  "upload_names l r = filename ` set (on_local_only (reconcile l r))"

text \<open>In how many of the four classes a filename falls.\<close>

definition class_count :: "file_entry list \<Rightarrow> file_entry list \<Rightarrow> string \<Rightarrow> nat" where
  "class_count l r n =
     length (filter (\<lambda>c. n \<in> c)
       [same_names l r, update_names l r, delete_remote_names l r, upload_names l r])"

subsection \<open>Wire framing\<close>

text \<open>
  The header is a JSON object of strings and integers. \<^verbatim>\<open>encode_json\<close> and
  \<^verbatim>\<open>decode_json\<close> belong to Python's library, and the model takes them as
  parameters: \<open>dumps\<close> is \<^verbatim>\<open>encode_json(header, "utf-8")\<close>; \<open>loads\<close> is
  \<^verbatim>\<open>decode_json(bytes, "utf-8")\<close> on header bytes and gives \<open>None\<close> for bytes it
  rejects; \<open>decode_json\<close> is \<^verbatim>\<open>decode_json(data, encoding)\<close> on the payload, with the
  encoding the header names. It raises for a payload that is no JSON text and for
  an encoding that is unknown, and it returns the object the text denotes, \<open>None\<close>
  for the text \<^verbatim>\<open>null\<close>.
\<close>

datatype jvalue = JStr string | JInt int

type_synonym json_object = "(string \<times> jvalue) list"







text \<open>
  The receiving side of a session: the attributes of \<^verbatim>\<open>ServerSideMessage\<close> that
  reading touches, and \<open>selector_events\<close>, the events the session is registered for
  with the selector (\<^verbatim>\<open>r\<close> from the moment the connection is accepted).
\<close>

record 'r message =
  receive_buffer :: bytes
  header_length :: "nat option"
  header :: "json_object option"
  request :: "'r option"
  selector_events :: string



























text \<open>The map a dictionary becomes when the items of \<open>b\<close> are stored into it in turn.\<close>

fun overlay :: "('k \<times> 'v) list \<Rightarrow> ('k \<rightharpoonup> 'v) \<Rightarrow> ('k \<rightharpoonup> 'v)" where
  "overlay [] m = m"
| "overlay ((k, v) # b) m = overlay b (m(k \<mapsto> v))"

section \<open>Properties\<close>

subsection \<open>The block codec\<close>

lemma file_read_Inr: "- 1 \<le> n \<Longrightarrow> \<exists>block rest'. file_read n rest = Inr (block, rest')"
  by (simp add: file_read_def)

lemma read_blocks_Inr: "- 1 \<le> n \<Longrightarrow> \<exists>bs. read_blocks n rest = Inr bs"
proof (induction n rest rule: read_blocks.induct)
  case (1 n rest)
  from file_read_Inr [OF "1.prems"] obtain block rest'
    where fr: "file_read n rest = Inr (block, rest')" by blast
  show ?case
  proof (cases "block = []")
    case True
    then show ?thesis by (subst read_blocks.simps) (simp add: fr)
  next
    case False
    from "1.IH" [OF fr refl False "1.prems"] obtain bs where "read_blocks n rest' = Inr bs" ..
    then show ?thesis using False by (subst read_blocks.simps) (simp add: fr)
  qed
qed

lemma read_blocks_size: "read_blocks n rest = Inr bs \<Longrightarrow> - 1 \<le> n"
  by (subst (asm) read_blocks.simps) (auto simp: file_read_def split: if_splits)


lemma update_fresh: "k \<notin> fst ` set al \<Longrightarrow> AList.update k v al = al @ [(k, v)]"
  by (induction al) auto

lemma block_dict_closed:
  "\<forall>j \<in> fst ` set acc. j < k \<Longrightarrow>
   block_dict k xs acc = acc @ zip (map (\<lambda>i. k + int i) [0..<length xs]) xs"
proof (induction xs arbitrary: k acc)
  case Nil
  then show ?case by simp
next
  case (Cons x xs)
  have fresh: "k \<notin> fst ` set acc" using Cons.prems by auto
  have step: "AList.update k x acc = acc @ [(k, x)]" by (rule update_fresh[OF fresh])
  have "\<forall>j \<in> fst ` set (acc @ [(k, x)]). j < k + 1" using Cons.prems by auto
  from Cons.IH[OF this]
  have "block_dict (k + 1) xs (acc @ [(k, x)]) =
        (acc @ [(k, x)]) @ zip (map (\<lambda>i. k + 1 + int i) [0..<length xs]) xs" .
  moreover have "map (\<lambda>i. k + int i) [0..<length (x # xs)] = k # map (\<lambda>i. k + 1 + int i) [0..<length xs]"
    by (simp add: upt_conv_Cons map_Suc_upt[symmetric] del: upt_Suc)
  ultimately show ?case by (simp add: step)
qed





lemma block_list_zip:
  "read_blocks n f = Inr bs \<Longrightarrow> block_list f n = Inr (zip (map int [0..<length bs]) bs)"
  using block_dict_closed [of "[]" 0 bs] by (simp add: block_list_def)

lemma hashed_block_list_zip:
  "read_blocks n f = Inr bs \<Longrightarrow>
   hashed_block_list sha f n = Inr (zip (map int [0..<length bs]) (map sha bs))"
  using block_dict_closed [of "[]" 0 "map sha bs"] by (simp add: hashed_block_list_def)

lemma block_list_Inr: "block_list f n = Inr blks \<Longrightarrow> \<exists>bs. read_blocks n f = Inr bs"
  by (auto simp: block_list_def split: sum.splits)


subsection \<open>The file system\<close>

lemma lookup_update:
  "p \<noteq> [] \<Longrightarrow> lookup (AList.update p v fs) q = (if q = p then Some v else lookup fs q)"
  by (simp add: lookup_def update_conv')

lemma walk_update:
  assumes "lookup fs p \<noteq> Some Directory"
  shows "walk fs cur names = Inr p \<Longrightarrow> walk (AList.update p (File v) fs) cur names = Inr p"
proof (induction names arbitrary: cur)
  case Nil
  then show ?case by simp
next
  case (Cons name names)
  from assms have ne: "p \<noteq> []" by (auto simp: lookup_def)
  from Cons.prems have isdir: "lookup fs cur = Some Directory"
    by (auto split: option.splits fsnode.splits)
  with assms have "cur \<noteq> p" by auto
  with isdir have isdir': "lookup (AList.update p (File v) fs) cur = Some Directory"
    by (simp add: lookup_update [OF ne])
  show ?case
    using Cons.prems Cons.IH isdir isdir' by (auto split: if_splits)
qed

lemma resolve_update:
  "lookup fs p \<noteq> Some Directory \<Longrightarrow> resolve fs text = Inr p
     \<Longrightarrow> resolve (AList.update p (File v) fs) text = Inr p"
  by (auto simp: resolve_def walk_update split: if_splits)

lemma open_wb_place:
  assumes "open_wb fs text = Inr p"
  shows "resolve fs text = Inr p" and "lookup fs p \<noteq> Some Directory" and "p \<noteq> []"
proof -
  show r: "resolve fs text = Inr p" and d: "lookup fs p \<noteq> Some Directory"
    using assms by (auto simp: open_wb_def split: sum.splits option.splits fsnode.splits if_splits)
  from d show "p \<noteq> []" by (auto simp: lookup_def)
qed

lemma open_rb_written:
  assumes "open_wb fs text = Inr p"
  shows "open_rb (AList.update p (File v) fs) text = Inr v"
proof -
  note pl = open_wb_place [OF assms]
  have "resolve (AList.update p (File v) fs) text = Inr p"
    using pl(2,1) by (rule resolve_update)
  then show ?thesis
    by (simp add: open_rb_def stat_def lookup_update [OF pl(3)])
qed

lemma open_wb_written:
  assumes "open_wb fs text = Inr p"
  shows "open_wb (AList.update p (File v) fs) text = Inr p"
proof -
  note pl = open_wb_place [OF assms]
  have "resolve (AList.update p (File v) fs) text = Inr p"
    using pl(2,1) by (rule resolve_update)
  then show ?thesis
    by (simp add: open_wb_def lookup_update [OF pl(3)])
qed

lemma open_rb_place:
  assumes "open_rb fs text = Inr f"
  shows "\<exists>p. resolve fs text = Inr p \<and> lookup fs p = Some (File f)"
  using assms by (auto simp: open_rb_def stat_def split: sum.splits option.splits fsnode.splits)

lemma open_rb_open_wb:
  assumes "open_rb fs text = Inr f"
  shows "\<exists>p. open_wb fs text = Inr p"
  using open_rb_place [OF assms] by (auto simp: open_wb_def)

lemma open_rb_exists: "open_rb fs text = Inr f \<Longrightarrow> path_exists fs text = Inr True"
  by (auto simp: open_rb_def path_exists_def split: sum.splits)



subsection \<open>The directory action handler\<close>

text \<open>
  Claim C9. A request whose action code is none of 1..6 gets no response: the last
  branch of \<^verbatim>\<open>handle_request\<close> raises TypeError while it builds its own answer, the
  file system is left as it was, and the server closes the connection on the error.
\<close>

theorem unknown_action_raises:
  assumes "action req < 1 \<or> 6 < action req"
  shows "handle_request sha h fs req = (Inl TypeError, fs)
         \<and> server_write_event sha h fs req = (ClosedOnError TypeError, fs)"
proof -
  have "handle_request sha h fs req = (Inl TypeError, fs)"
    using assms by (auto simp: handle_request_def)
  then show ?thesis by (simp add: server_write_event_def)
qed

theorem unknown_action_raises_witness:
  "\<forall>sha. handle_request sha \<lparr>directory = ''/srv'', handler_block_size = 4\<rparr>
      [([''srv''], Directory), ([''srv'', ''a.txt''], File ''abc'')] \<lparr>action = 7, data = None\<rparr>
    = (Inl TypeError, [([''srv''], Directory), ([''srv'', ''a.txt''], File ''abc'')])"
proof -
  have "action \<lparr>action = 7, data = None\<rparr> < 1 \<or> 6 < action \<lparr>action = 7, data = None\<rparr>"
    by simp
  from unknown_action_raises [OF this] show ?thesis by blast
qed

text \<open>
  Claim C10, amended. A NewFile request without \<^verbatim>\<open>filedata\<close>, for a filename that
  does not exist yet and whose path names a free place in a directory that exists
  (so the path has no NUL byte and no over-long name, and every directory on it
  exists), creates that file with no bytes and answers with the success message.
\<close>

theorem new_file_without_filedata:
  assumes "action req = 2"
    and "data req = Some d"
    and "filedata d = None"
    and "data_filename d = Some fname"
    and "\<not> os_path_exists fs (os_path_join (directory h) fname)"
    and "resolve fs (Path (directory h) fname) = Inr p"
    and "lookup fs p = None"
    and "lookup fs (butlast p) = Some Directory"
  shows "handle_request sha h fs req
           = (Inr (Response (StatusMsg NEW_FILE_ACTION (''Successfully uploaded '' @ fname))),
              fs @ [(p, File [])])
         \<and> open_rb (fs @ [(p, File [])]) (Path (directory h) fname) = Inr []"
proof -
  have wb: "open_wb fs (Path (directory h) fname) = Inr p"
    using assms(6-8) by (simp add: open_wb_def)
  have "map_of fs p = None"
    using assms(7) by (simp add: lookup_def split: if_splits)
  then have "p \<notin> fst ` set fs" by (simp add: map_of_eq_None_iff)
  then have new: "AList.update p (File []) fs = fs @ [(p, File [])]" by (rule update_fresh)
  have "create_new_file h fs fname []
          = (Inr (StatusMsg NEW_FILE_ACTION (''Successfully uploaded '' @ fname)),
             fs @ [(p, File [])])"
    using assms(5) wb by (simp add: create_new_file_def write_file_def new)
  then have "handle_request sha h fs req
           = (Inr (Response (StatusMsg NEW_FILE_ACTION (''Successfully uploaded '' @ fname))),
              fs @ [(p, File [])])"
    using assms(1-4) by (simp add: handle_request_def)
  moreover have "open_rb (fs @ [(p, File [])]) (Path (directory h) fname) = Inr []"
    using open_rb_written [OF wb, of "[]"] by (simp only: new)
  ultimately show ?thesis by simp
qed

theorem new_file_without_filedata_witness:
  "\<forall>sha. handle_request sha \<lparr>directory = ''/srv'', handler_block_size = 4\<rparr>
      [([''srv''], Directory), ([''srv'', ''a.txt''], File ''abc'')]
      \<lparr>action = 2, data = Some (no_data\<lparr>data_filename := Some ''new.txt''\<rparr>)\<rparr>
    = (Inr (Response (StatusMsg NEW_FILE_ACTION ''Successfully uploaded new.txt'')),
       [([''srv''], Directory), ([''srv'', ''a.txt''], File ''abc''),
        ([''srv'', ''new.txt''], File [])])"
proof -
  let ?h = "\<lparr>directory = ''/srv'', handler_block_size = 4\<rparr>"
  let ?fs = "[([''srv''], Directory), ([''srv'', ''a.txt''], File ''abc'')]"
  let ?d = "no_data\<lparr>data_filename := Some ''new.txt''\<rparr>"
  let ?req = "\<lparr>action = 2, data = Some ?d\<rparr>"
  have a: "action ?req = 2" by simp
  have b: "data ?req = Some ?d" by simp
  have c: "filedata ?d = None" by (simp add: no_data_def)
  have d: "data_filename ?d = Some ''new.txt''" by simp
  have e: "\<not> os_path_exists ?fs (os_path_join (directory ?h) ''new.txt'')"
    by code_simp
  have f: "resolve ?fs (Path (directory ?h) ''new.txt'') = Inr [''srv'', ''new.txt'']"
    by code_simp
  have g: "lookup ?fs [''srv'', ''new.txt''] = None"
    by code_simp
  have i: "lookup ?fs (butlast [''srv'', ''new.txt'']) = Some Directory"
    by code_simp
  show ?thesis using new_file_without_filedata [OF a b c d e f g i] by simp
qed

text \<open>
  Claim C10 as stated, for every filename that does not exist yet, fails for a
  filename in a directory that does not exist: \<^verbatim>\<open>path.exists\<close> gives \<^verbatim>\<open>False\<close>, and
  \<^verbatim>\<open>open\<close> raises FileNotFoundError. No file is created and no response is sent.
\<close>

theorem new_file_without_filedata_counterexample:
  "\<not> os_path_exists [([''srv''], Directory), ([''srv'', ''a.txt''], File ''abc'')]
        (os_path_join ''/srv'' ''nodir/x.txt'')
   \<and> (\<forall>sha. handle_request sha \<lparr>directory = ''/srv'', handler_block_size = 4\<rparr>
        [([''srv''], Directory), ([''srv'', ''a.txt''], File ''abc'')]
        \<lparr>action = 2, data = Some (no_data\<lparr>data_filename := Some ''nodir/x.txt''\<rparr>)\<rparr>
      = (Inl FileNotFoundError, [([''srv''], Directory), ([''srv'', ''a.txt''], File ''abc'')]))
   \<and> (\<forall>sha. server_write_event sha \<lparr>directory = ''/srv'', handler_block_size = 4\<rparr>
        [([''srv''], Directory), ([''srv'', ''a.txt''], File ''abc'')]
        \<lparr>action = 2, data = Some (no_data\<lparr>data_filename := Some ''nodir/x.txt''\<rparr>)\<rparr>
      = (ClosedOnError FileNotFoundError,
         [([''srv''], Directory), ([''srv'', ''a.txt''], File ''abc'')]))"
proof -
  let ?fs = "[([''srv''], Directory), ([''srv'', ''a.txt''], File ''abc'')]"
  have e: "\<not> os_path_exists ?fs (os_path_join ''/srv'' ''nodir/x.txt'')"
    by code_simp
  have w: "write_file ?fs (Path ''/srv'' ''nodir/x.txt'') [] = Inl FileNotFoundError"
    by code_simp
  have c: "create_new_file \<lparr>directory = ''/srv'', handler_block_size = 4\<rparr> ?fs ''nodir/x.txt'' []
             = (Inl FileNotFoundError, ?fs)"
    using e w by (simp add: create_new_file_def)
  have h: "\<And>sha. handle_request sha \<lparr>directory = ''/srv'', handler_block_size = 4\<rparr> ?fs
        \<lparr>action = 2, data = Some (no_data\<lparr>data_filename := Some ''nodir/x.txt''\<rparr>)\<rparr>
      = (Inl FileNotFoundError, ?fs)"
    by (simp add: handle_request_def no_data_def c)
  show ?thesis using e h by (simp add: server_write_event_def)
qed

text \<open>
  Claim C7. A FileRecipe request for a filename that does not exist raises
  FileActionHandlerException out of \<^verbatim>\<open>handle_request\<close>: no response is built, the
  server closes the connection on the error, and the file system is unchanged.
\<close>

theorem recipe_of_missing_file_raises:
  assumes "action req = 5"
    and "data req = Some d"
    and "data_filename d = Some fname"
    and "path_exists fs (Path (directory h) fname) = Inr False"
  shows "handle_request sha h fs req = (Inl FileActionHandlerException, fs)
         \<and> server_write_event sha h fs req = (ClosedOnError FileActionHandlerException, fs)"
proof -
  have "create_file_recipe sha h fs fname = Inl FileActionHandlerException"
    using assms(4) by (simp add: create_file_recipe_def)
  then have "handle_request sha h fs req = (Inl FileActionHandlerException, fs)"
    using assms(1-3) by (simp add: handle_request_def)
  then show ?thesis by (simp add: server_write_event_def)
qed

theorem recipe_of_missing_file_raises_witness:
  "\<forall>sha. server_write_event sha \<lparr>directory = ''/srv'', handler_block_size = 4\<rparr>
      [([''srv''], Directory), ([''srv'', ''a.txt''], File ''abc'')]
      \<lparr>action = 5, data = Some (no_data\<lparr>data_filename := Some ''missing.txt''\<rparr>)\<rparr>
    = (ClosedOnError FileActionHandlerException,
       [([''srv''], Directory), ([''srv'', ''a.txt''], File ''abc'')])"
proof -
  let ?h = "\<lparr>directory = ''/srv'', handler_block_size = 4\<rparr>"
  let ?fs = "[([''srv''], Directory), ([''srv'', ''a.txt''], File ''abc'')]"
  let ?d = "no_data\<lparr>data_filename := Some ''missing.txt''\<rparr>"
  let ?req = "\<lparr>action = 5, data = Some ?d\<rparr>"
  have a: "action ?req = 5" by simp
  have b: "data ?req = Some ?d" by simp
  have c: "data_filename ?d = Some ''missing.txt''" by simp
  have d: "path_exists ?fs (Path (directory ?h) ''missing.txt'') = Inr False"
    by code_simp
  show ?thesis using recipe_of_missing_file_raises [OF a b c d] by blast
qed

text \<open>
  When \<^verbatim>\<open>exists\<close> itself raises, as it does for a name that is too long, that error
  leaves \<^verbatim>\<open>handle_request\<close> in the same way: such a request gets no response either.
\<close>

lemma recipe_of_unreadable_name_raises:
  assumes "action req = 5"
    and "data req = Some d"
    and "data_filename d = Some fname"
    and "path_exists fs (Path (directory h) fname) = Inl e"
  shows "handle_request sha h fs req = (Inl e, fs)
         \<and> server_write_event sha h fs req = (ClosedOnError e, fs)"
proof -
  have "create_file_recipe sha h fs fname = Inl e"
    using assms(4) by (simp add: create_file_recipe_def)
  then have "handle_request sha h fs req = (Inl e, fs)"
    using assms(1-3) by (simp add: handle_request_def)
  then show ?thesis by (simp add: server_write_event_def)
qed

text \<open>
  MoveFile. With the source missing the handler answers with a status message and
  leaves the file system alone (\<open>move_missing_source\<close>).
\<close>

lemma move_request:
  assumes "action req = 3"
    and "data req = Some d"
    and "source_filename d = Some src"
    and "destination_filename d = Some dst"
  shows "handle_request sha h fs req = respond (move_file h fs src dst)"
  using assms by (simp add: handle_request_def)

lemma move_missing_source:
  assumes "action req = 3"
    and "data req = Some d"
    and "source_filename d = Some src"
    and "destination_filename d = Some dst"
    and "path_exists fs (Path (directory h) src) = Inr False"
  shows "\<exists>r. handle_request sha h fs req = (Inr r, fs) \<and> is_status_message r"
  using assms(5) unfolding move_request [OF assms(1-4)] by (simp add: move_file_def)

text \<open>
  Claim C3. When the source exists and the destination exists too, \<^verbatim>\<open>move_file\<close>
  returns \<^verbatim>\<open>False\<close>: the response is \<^verbatim>\<open>dict(response=False)\<close>, which carries neither
  the action code nor a message. The file system is unchanged. So the claim's
  structured failure response is given for a missing source only.
\<close>

theorem move_onto_existing_destination:
  assumes "action req = 3"
    and "data req = Some d"
    and "source_filename d = Some src"
    and "destination_filename d = Some dst"
    and "path_exists fs (Path (directory h) src) = Inr True"
    and "path_exists fs (Path (directory h) dst) = Inr True"
  shows "handle_request sha h fs req = (Inr (Response PyFalse), fs)
         \<and> \<not> is_status_message (Response PyFalse)"
  using assms(5,6) unfolding move_request [OF assms(1-4)] by (simp add: move_file_def)

theorem move_onto_existing_destination_witness:
  "\<forall>sha. handle_request sha \<lparr>directory = ''/srv'', handler_block_size = 4\<rparr>
      [([''srv''], Directory), ([''srv'', ''a.txt''], File ''abc''),
       ([''srv'', ''b.txt''], File ''xyz'')]
      \<lparr>action = 3, data = Some (no_data\<lparr>source_filename := Some ''a.txt'',
                                         destination_filename := Some ''b.txt''\<rparr>)\<rparr>
    = (Inr (Response PyFalse),
       [([''srv''], Directory), ([''srv'', ''a.txt''], File ''abc''),
        ([''srv'', ''b.txt''], File ''xyz'')])"
proof -
  let ?h = "\<lparr>directory = ''/srv'', handler_block_size = 4\<rparr>"
  let ?d = "no_data\<lparr>source_filename := Some ''a.txt'', destination_filename := Some ''b.txt''\<rparr>"
  let ?req = "\<lparr>action = 3, data = Some ?d\<rparr>"
  let ?fs = "[([''srv''], Directory), ([''srv'', ''a.txt''], File ''abc''),
              ([''srv'', ''b.txt''], File ''xyz'')]"
  have a: "action ?req = 3" by simp
  have b: "data ?req = Some ?d" by simp
  have c: "source_filename ?d = Some ''a.txt''" by simp
  have d: "destination_filename ?d = Some ''b.txt''" by simp
  have e: "path_exists ?fs (Path (directory ?h) ''a.txt'') = Inr True" by code_simp
  have f: "path_exists ?fs (Path (directory ?h) ''b.txt'') = Inr True" by code_simp
  show ?thesis using move_onto_existing_destination [OF a b c d e f] by blast
qed

subsection \<open>Directory listing\<close>

lemma rows_Inr:
  assumes "\<And>x. x \<in> set xs \<Longrightarrow> \<exists>y. f x = Inr y"
  shows "\<exists>ys. rows f xs = Inr ys \<and> (\<forall>x y. x \<in> set xs \<longrightarrow> f x = Inr y \<longrightarrow> y \<in> set ys)"
  using assms
proof (induction xs)
  case Nil
  then show ?case by simp
next
  case (Cons x xs)
  from Cons.prems obtain y where y: "f x = Inr y" by auto
  from Cons.IH Cons.prems obtain ys where ys: "rows f xs = Inr ys"
    and mem: "\<forall>x y. x \<in> set xs \<longrightarrow> f x = Inr y \<longrightarrow> y \<in> set ys" by auto
  have "rows f (x # xs) = Inr (y # ys)" by (simp add: y ys)
  moreover have "\<forall>x' y'. x' \<in> set (x # xs) \<longrightarrow> f x' = Inr y' \<longrightarrow> y' \<in> set (y # ys)"
    using y mem by auto
  ultimately show ?case by blast
qed

lemma hash_file_Inr: "- 1 \<le> n \<Longrightarrow> \<exists>digest. hash_file sha bs n = Inr digest"
  using read_blocks_Inr [of n bs] by (auto simp: hash_file_def)

lemma listing_row_Inr:
  assumes "- 1 \<le> n" and "is_file x"
  shows "\<exists>y. listing_row sha n x = Inr y"
proof -
  from assms(2) obtain p bs where x: "x = (p, File bs)"
    by (cases x rule: is_file.cases) auto
  from hash_file_Inr [OF assms(1)] obtain digest where "hash_file sha bs n = Inr digest" ..
  then show ?thesis by (simp add: x)
qed

lemma glob_sub_file:
  assumes "resolve fs directory_path = Inr base"
    and "lookup fs base = Some Directory"
    and "map_of fs (base @ [sub]) = Some Directory"
    and "map_of fs (base @ [sub, name]) = Some (File bs)"
  shows "\<exists>entries. glob_all fs directory_path = Inr entries
           \<and> (base @ [sub, name], File bs) \<in> set entries"
proof -
  have mem: "(base @ [sub, name], File bs) \<in> set fs"
    using assms(4) by (rule map_of_SomeD)
  have "[length base..<length (base @ [sub, name])] = [length base, Suc (length base)]"
    by (simp add: upt_rec)
  moreover have "lookup fs (base @ [sub]) = Some Directory"
    using assms(3) by (simp add: lookup_def)
  ultimately have "reachable fs base (base @ [sub, name])"
    using assms(2) by (simp add: reachable_def below_def)
  with mem show ?thesis
    by (auto simp: glob_all_def assms(1))
qed

lemma enumerate_sub_file:
  assumes "resolve fs directory_path = Inr base"
    and "lookup fs base = Some Directory"
    and "map_of fs (base @ [sub]) = Some Directory"
    and "map_of fs (base @ [sub, name]) = Some (File bs)"
    and "- 1 \<le> n"
  shows "\<exists>files digest. enumerate_directory sha fs directory_path n = Inr files
           \<and> hash_file sha bs n = Inr digest
           \<and> \<lparr>filename = name, file_size = length bs, sha256 = digest\<rparr> \<in> set files"
proof -
  from glob_sub_file [OF assms(1-4)] obtain entries
    where g: "glob_all fs directory_path = Inr entries"
      and "(base @ [sub, name], File bs) \<in> set entries" by blast
  let ?file_list = "filter is_file (filter is_file entries)"
  have mem: "(base @ [sub, name], File bs) \<in> set ?file_list"
    using \<open>(base @ [sub, name], File bs) \<in> set entries\<close> by simp
  from hash_file_Inr [OF assms(5)] obtain digest where dg: "hash_file sha bs n = Inr digest" ..
  have row: "listing_row sha n (base @ [sub, name], File bs)
               = Inr \<lparr>filename = name, file_size = length bs, sha256 = digest\<rparr>"
    by (simp add: dg)
  have "\<And>x. x \<in> set ?file_list \<Longrightarrow> \<exists>y. listing_row sha n x = Inr y"
    using listing_row_Inr [OF assms(5)] by simp
  from rows_Inr [of ?file_list "listing_row sha n", OF this]
  obtain files where files: "rows (listing_row sha n) ?file_list = Inr files"
    and all: "\<forall>x y. x \<in> set ?file_list \<longrightarrow> listing_row sha n x = Inr y \<longrightarrow> y \<in> set files"
    by blast
  from all mem row have "\<lparr>filename = name, file_size = length bs, sha256 = digest\<rparr> \<in> set files"
    by blast
  with files dg show ?thesis
    by (auto simp: enumerate_directory_def g Let_def)
qed

text \<open>
  Claim C2. The listing is recursive: a file that lies in a subdirectory of the
  managed directory appears in the \<^verbatim>\<open>file_info\<close> of the EnumerateDirectory response,
  under its base name. The claim says it never does, and so does the handler's
  docstring; \<^verbatim>\<open>glob('**/*')\<close> descends all the same. (The block size is one that
  \<^verbatim>\<open>read\<close> accepts.)
\<close>

theorem enumerate_lists_subdirectory_files:
  assumes "action req = 1"
    and "resolve fs (directory h) = Inr base"
    and "lookup fs base = Some Directory"
    and "map_of fs (base @ [sub]) = Some Directory"
    and "map_of fs (base @ [sub, name]) = Some (File bs)"
    and "- 1 \<le> handler_block_size h"
  shows "\<exists>files digest. handle_request sha h fs req
            = (Inr (Response (DirListing ENUMERATE_REMOTE_DIR_ACTION (handler_block_size h) files)), fs)
          \<and> hash_file sha bs (handler_block_size h) = Inr digest
          \<and> \<lparr>filename = name, file_size = length bs, sha256 = digest\<rparr> \<in> set files"
proof -
  from enumerate_sub_file [OF assms(2-6), of sha]
  obtain files digest
    where "enumerate_directory sha fs (directory h) (handler_block_size h) = Inr files"
      and "hash_file sha bs (handler_block_size h) = Inr digest"
      and "\<lparr>filename = name, file_size = length bs, sha256 = digest\<rparr> \<in> set files"
    by blast
  then show ?thesis
    using assms(1) by (auto simp: handle_request_def handler_enumerate_directory_def)
qed

theorem enumerate_lists_subdirectory_files_witness:
  "\<forall>sha. handle_request sha \<lparr>directory = ''/srv'', handler_block_size = 4\<rparr>
      [([''srv''], Directory), ([''srv'', ''top.txt''], File ''abc''),
       ([''srv'', ''sub''], Directory), ([''srv'', ''sub'', ''inner.txt''], File ''xy'')]
      \<lparr>action = 1, data = None\<rparr>
    = (Inr (Response (DirListing ENUMERATE_REMOTE_DIR_ACTION 4
         [\<lparr>filename = ''top.txt'', file_size = 3, sha256 = sha ''abc''\<rparr>,
          \<lparr>filename = ''inner.txt'', file_size = 2, sha256 = sha ''xy''\<rparr>])),
       [([''srv''], Directory), ([''srv'', ''top.txt''], File ''abc''),
        ([''srv'', ''sub''], Directory), ([''srv'', ''sub'', ''inner.txt''], File ''xy'')])"
proof
  fix sha :: "bytes \<Rightarrow> string"
  let ?h = "\<lparr>directory = ''/srv'', handler_block_size = 4\<rparr>"
  let ?fs = "[([''srv''], Directory), ([''srv'', ''top.txt''], File ''abc''),
              ([''srv'', ''sub''], Directory), ([''srv'', ''sub'', ''inner.txt''], File ''xy'')]"
  let ?req = "\<lparr>action = 1, data = None\<rparr>"
  have a: "action ?req = 1" by simp
  have b: "resolve ?fs (directory ?h) = Inr [''srv'']" by code_simp
  have c: "lookup ?fs [''srv''] = Some Directory" by code_simp
  have d: "map_of ?fs ([''srv''] @ [''sub'']) = Some Directory" by simp
  have e: "map_of ?fs ([''srv''] @ [''sub'', ''inner.txt'']) = Some (File ''xy'')" by simp
  have f: "- 1 \<le> handler_block_size ?h" by simp
  have r1: "read_blocks 4 ''abc'' = Inr [''abc'']" by code_simp
  have r2: "read_blocks 4 ''xy'' = Inr [''xy'']" by code_simp
  have g: "glob_all ?fs ''/srv''
         = Inr [([''srv'', ''top.txt''], File ''abc''), ([''srv'', ''sub''], Directory),
                ([''srv'', ''sub'', ''inner.txt''], File ''xy'')]"
    by code_simp
  have en: "enumerate_directory sha ?fs ''/srv'' 4 =
         Inr [\<lparr>filename = ''top.txt'', file_size = 3, sha256 = sha ''abc''\<rparr>,
              \<lparr>filename = ''inner.txt'', file_size = 2, sha256 = sha ''xy''\<rparr>]"
    by (simp add: enumerate_directory_def g hash_file_def r1 r2)
  show "handle_request sha ?h ?fs ?req
    = (Inr (Response (DirListing ENUMERATE_REMOTE_DIR_ACTION 4
         [\<lparr>filename = ''top.txt'', file_size = 3, sha256 = sha ''abc''\<rparr>,
          \<lparr>filename = ''inner.txt'', file_size = 2, sha256 = sha ''xy''\<rparr>])), ?fs)"
    using enumerate_lists_subdirectory_files [OF a b c d e f, of sha]
    by (simp add: handle_request_def handler_enumerate_directory_def en)
qed

subsection \<open>The block diff of the client\<close>

lemma map_fst_filter_keys:
  "map fst (filter (\<lambda>(k, v). P k) xs) = filter P (map fst xs)"
  by (induction xs) auto

text \<open>What the request carries, with Python's equality of keys.\<close>

lemma update_file_by_recipe_sent:
  assumes "open_rb fs (Path client_directory (recipe_filename info)) = Inr f"
    and "read_blocks (recipe_block_size info) f = Inr bs"
  shows "\<exists>env. update_file_by_recipe sha fs client_directory info = Inr (Some env)
           \<and> sent_indices (Some env)
               = filter (\<lambda>k. \<exists>v. (k, v) \<in> set (zip (map int [0..<length bs]) (map sha bs))
                               \<and> (IntKey k, v) \<notin> set (recipe info))
                   (map int [0..<length bs])"
proof -
  let ?n = "recipe_block_size info"
  let ?hb = "zip (map int [0..<length bs]) (map sha bs)"
  let ?bl = "zip (map int [0..<length bs]) bs"
  let ?keys = "map fst (filter (\<lambda>item. item \<notin> set (recipe info))
                        (map (\<lambda>(k, v). (IntKey k, v)) ?hb))"
  let ?P = "\<lambda>k. \<exists>v. (k, v) \<in> set ?hb \<and> (IntKey k, v) \<notin> set (recipe info)"
  have ex: "path_exists fs (Path client_directory (recipe_filename info)) = Inr True"
    using assms(1) by (rule open_rb_exists)
  have hb: "create_hashed_block_list sha fs (Path client_directory (recipe_filename info)) ?n
              = Inr ?hb"
    using assms(1) hashed_block_list_zip [OF assms(2)] by (simp add: create_hashed_block_list_def)
  have bl: "create_block_list fs (Path client_directory (recipe_filename info)) ?n = Inr ?bl"
    using assms(1) block_list_zip [OF assms(2)] by (simp add: create_block_list_def)
  have keys: "(\<lambda>(k, v). IntKey k \<in> set ?keys) = (\<lambda>(k, v :: bytes). ?P k)"
    by (force simp: fun_eq_iff image_iff)
  have "map fst (map (\<lambda>(k, v). (k, b64encode v))
          (filter (\<lambda>(k, v). IntKey k \<in> set ?keys) ?bl))
        = filter ?P (map fst ?bl)"
    unfolding keys map_fst_filter_keys [symmetric]
    by (simp add: case_prod_unfold comp_def)
  moreover have "map fst ?bl = map int [0..<length bs]" by simp
  ultimately have sent: "map fst (map (\<lambda>(k, v). (k, b64encode v))
          (filter (\<lambda>(k, v). IntKey k \<in> set ?keys) ?bl))
        = filter ?P (map int [0..<length bs])" by simp
  show ?thesis
    using sent
    by (simp add: update_file_by_recipe_def Let_def ex hb bl sent_indices_def create_request_def)
qed

lemma json_keys_no_int: "(IntKey k, v) \<notin> set (json_keys r)"
  by (auto simp: json_keys_def)

text \<open>
  Claim C1. The recipe the requester receives has passed through JSON, so its keys
  are strings, while the locally computed items have \<^verbatim>\<open>int\<close> keys: no local item
  equals an item of the recipe, and the request carries every block of the local
  file, whatever the recipe's hashes are. An index whose local hash equals the
  recipe's hash at that index is sent all the same. (The handler's \<^verbatim>\<open>update_file\<close>
  converts the keys of its payload with \<^verbatim>\<open>int(k)\<close>; this path does not. The block
  size is one that \<^verbatim>\<open>read\<close> accepts.)
\<close>

theorem recipe_from_json_sends_every_block:
  assumes "open_rb fs (Path client_directory (recipe_filename info)) = Inr f"
    and "- 1 \<le> recipe_block_size info"
  shows "\<exists>env blks. update_file_by_recipe sha fs client_directory (received_recipe_info info)
             = Inr (Some env)
           \<and> block_list f (recipe_block_size info) = Inr blks
           \<and> sent_indices (Some env) = map fst blks"
proof -
  let ?ri = "received_recipe_info info"
  have n: "recipe_block_size ?ri = recipe_block_size info"
    and r: "recipe ?ri = json_keys (recipe info)"
    and nm: "recipe_filename ?ri = recipe_filename info"
    by (simp_all add: received_recipe_info_def)
  from read_blocks_Inr [OF assms(2)] obtain bs
    where bs: "read_blocks (recipe_block_size info) f = Inr bs" ..
  let ?ks = "map int [0..<length bs]"
  have bl: "block_list f (recipe_block_size info) = Inr (zip ?ks bs)"
    using bs by (rule block_list_zip)
  have all: "\<And>k. k \<in> set ?ks \<Longrightarrow> \<exists>v. (k, v) \<in> set (zip ?ks (map sha bs))"
  proof -
    fix k assume "k \<in> set ?ks"
    moreover have "map fst (zip ?ks (map sha bs)) = ?ks" by simp
    ultimately have "k \<in> set (map fst (zip ?ks (map sha bs)))" by (simp only:)
    then have "k \<in> fst ` set (zip ?ks (map sha bs))" by (simp only: set_map)
    then show "\<exists>v. (k, v) \<in> set (zip ?ks (map sha bs))" by force
  qed
  from update_file_by_recipe_sent [of fs client_directory ?ri f bs sha] assms(1) bs
  obtain env where env: "update_file_by_recipe sha fs client_directory ?ri = Inr (Some env)"
    and sent: "sent_indices (Some env)
               = filter (\<lambda>k. \<exists>v. (k, v) \<in> set (zip ?ks (map sha bs))
                               \<and> (IntKey k, v) \<notin> set (json_keys (recipe info))) ?ks"
    unfolding n r nm by blast
  have "sent_indices (Some env) = ?ks"
    unfolding sent by (rule filter_True) (simp add: json_keys_no_int all del: set_map)
  then have "sent_indices (Some env) = map fst (zip ?ks bs)" by simp
  with env bl show ?thesis by blast
qed

theorem recipe_from_json_sends_every_block_witness:
  "\<forall>sha.
     create_file_recipe sha \<lparr>directory = ''/srv'', handler_block_size = 4\<rparr>
         [([''srv''], Directory), ([''srv'', ''a.txt''], File ''abcd'')] ''a.txt''
       = Inr (FileRecipe FILE_RECIPE_ACTION
               \<lparr>recipe_filename = ''a.txt'', recipe_block_size = 4,
                hash_algorithm = ''sha256'', recipe = [(0, sha ''abcd'')]\<rparr>)
     \<and> received_recipe_info
           \<lparr>recipe_filename = ''a.txt'', recipe_block_size = 4,
            hash_algorithm = ''sha256'', recipe = [(0, sha ''abcd'')]\<rparr>
       = \<lparr>recipe_filename = ''a.txt'', recipe_block_size = 4,
          hash_algorithm = ''sha256'', recipe = [(StrKey ''0'', sha ''abcd'')]\<rparr>
     \<and> sent_indices (Some (create_request 6 (Some (no_data\<lparr>data_recipe_info := Some
           \<lparr>update_filename = ''a.txt'', update_block_size = 4,
            update_blocks = [(0, B64 ''abcd'')]\<rparr>\<rparr>)))) = [0]
     \<and> update_file_by_recipe sha
           [([''home''], Directory), ([''home'', ''a.txt''], File ''abcd'')] ''/home''
           \<lparr>recipe_filename = ''a.txt'', recipe_block_size = 4,
            hash_algorithm = ''sha256'', recipe = [(StrKey ''0'', sha ''abcd'')]\<rparr>
       = Inr (Some (create_request 6 (Some (no_data\<lparr>data_recipe_info := Some
           \<lparr>update_filename = ''a.txt'', update_block_size = 4,
            update_blocks = [(0, B64 ''abcd'')]\<rparr>\<rparr>))))"
proof
  fix sha :: "bytes \<Rightarrow> string"
  let ?srv = "[([''srv''], Directory), ([''srv'', ''a.txt''], File ''abcd'')]"
  let ?fs = "[([''home''], Directory), ([''home'', ''a.txt''], File ''abcd'')]"
  let ?info = "\<lparr>recipe_filename = ''a.txt'', recipe_block_size = 4,
                hash_algorithm = ''sha256'', recipe = [(0 :: int, sha ''abcd'')]\<rparr>"
  have r: "read_blocks 4 ''abcd'' = Inr [''abcd'']" by code_simp
  have pe: "path_exists ?srv (Path ''/srv'' ''a.txt'') = Inr True" by code_simp
  have os: "open_rb ?srv (Path ''/srv'' ''a.txt'') = Inr ''abcd''" by code_simp
  have o: "open_rb ?fs (Path ''/home'' (recipe_filename ?info)) = Inr ''abcd''"
  proof -
    have "open_rb ?fs (Path ''/home'' ''a.txt'') = Inr ''abcd''" by code_simp
    then show ?thesis by simp
  qed
  have n: "- 1 \<le> recipe_block_size ?info" by simp
  have srv: "create_file_recipe sha \<lparr>directory = ''/srv'', handler_block_size = 4\<rparr> ?srv ''a.txt''
       = Inr (FileRecipe FILE_RECIPE_ACTION ?info)"
    by (simp add: create_file_recipe_def pe create_hashed_block_list_def os
        hashed_block_list_def r)
  have rcv: "received_recipe_info ?info
       = \<lparr>recipe_filename = ''a.txt'', recipe_block_size = 4,
          hash_algorithm = ''sha256'', recipe = [(StrKey ''0'', sha ''abcd'')]\<rparr>"
    by (simp add: received_recipe_info_def json_keys_def py_str_int_def decimal.simps digit_char_def)
  have bl: "block_list ''abcd'' 4 = Inr [(0, ''abcd'')]"
    by (simp add: block_list_def r)
  have snt: "sent_indices (Some (create_request 6 (Some (no_data\<lparr>data_recipe_info := Some
           \<lparr>update_filename = ''a.txt'', update_block_size = 4,
            update_blocks = [(0, B64 ''abcd'')]\<rparr>\<rparr>)))) = [0]"
    by (simp add: sent_indices_def create_request_def)
  have oh: "open_rb ?fs (Path ''/home'' ''a.txt'') = Inr ''abcd''" by code_simp
  have ph: "path_exists ?fs (Path ''/home'' ''a.txt'') = Inr True" by code_simp
  have upd: "update_file_by_recipe sha ?fs ''/home'' (received_recipe_info ?info)
       = Inr (Some (create_request 6 (Some (no_data\<lparr>data_recipe_info := Some
           \<lparr>update_filename = ''a.txt'', update_block_size = 4,
            update_blocks = [(0, B64 ''abcd'')]\<rparr>\<rparr>))))"
    unfolding rcv
    by (auto simp: update_file_by_recipe_def Let_def ph
        create_hashed_block_list_def create_block_list_def oh hashed_block_list_def
        bl r b64encode_def)
  show "create_file_recipe sha \<lparr>directory = ''/srv'', handler_block_size = 4\<rparr>
         [([''srv''], Directory), ([''srv'', ''a.txt''], File ''abcd'')] ''a.txt''
       = Inr (FileRecipe FILE_RECIPE_ACTION
               \<lparr>recipe_filename = ''a.txt'', recipe_block_size = 4,
                hash_algorithm = ''sha256'', recipe = [(0, sha ''abcd'')]\<rparr>)
     \<and> received_recipe_info
           \<lparr>recipe_filename = ''a.txt'', recipe_block_size = 4,
            hash_algorithm = ''sha256'', recipe = [(0, sha ''abcd'')]\<rparr>
       = \<lparr>recipe_filename = ''a.txt'', recipe_block_size = 4,
          hash_algorithm = ''sha256'', recipe = [(StrKey ''0'', sha ''abcd'')]\<rparr>
     \<and> sent_indices (Some (create_request 6 (Some (no_data\<lparr>data_recipe_info := Some
           \<lparr>update_filename = ''a.txt'', update_block_size = 4,
            update_blocks = [(0, B64 ''abcd'')]\<rparr>\<rparr>)))) = [0]
     \<and> update_file_by_recipe sha
           [([''home''], Directory), ([''home'', ''a.txt''], File ''abcd'')] ''/home''
           \<lparr>recipe_filename = ''a.txt'', recipe_block_size = 4,
            hash_algorithm = ''sha256'', recipe = [(StrKey ''0'', sha ''abcd'')]\<rparr>
       = Inr (Some (create_request 6 (Some (no_data\<lparr>data_recipe_info := Some
           \<lparr>update_filename = ''a.txt'', update_block_size = 4,
            update_blocks = [(0, B64 ''abcd'')]\<rparr>\<rparr>))))"
    using recipe_from_json_sends_every_block [OF o n, of sha] srv rcv snt upd by simp
qed

subsection \<open>Reconciliation\<close>

lemma unique_by_name:
  "distinct (map filename es) \<Longrightarrow> a \<in> set es \<Longrightarrow> b \<in> set es \<Longrightarrow> filename a = filename b
     \<Longrightarrow> a = b"
  by (auto simp: distinct_map dest: inj_onD)

lemma same_names_iff:
  "n \<in> same_names l r \<longleftrightarrow> (\<exists>e. e \<in> set l \<and> e \<in> set r \<and> filename e = n)"
  by (auto simp: same_names_def reconcile_def Let_def)

lemma update_names_iff:
  assumes "distinct (map filename l)" and "distinct (map filename r)"
  shows "n \<in> update_names l r
           \<longleftrightarrow> (\<exists>a b. a \<in> set l \<and> b \<in> set r \<and> filename a = n \<and> filename b = n \<and> a \<noteq> b)"
proof
  assume "n \<in> update_names l r"
  then obtain a b where "a \<in> set l" "a \<notin> set r" "filename a = n"
      "b \<in> set r" "b \<notin> set l" "filename b = filename a"
    by (auto simp: update_names_def reconcile_def Let_def)
  then show "\<exists>a b. a \<in> set l \<and> b \<in> set r \<and> filename a = n \<and> filename b = n \<and> a \<noteq> b"
    by metis
next
  assume "\<exists>a b. a \<in> set l \<and> b \<in> set r \<and> filename a = n \<and> filename b = n \<and> a \<noteq> b"
  then obtain a b where ab: "a \<in> set l" "b \<in> set r" "filename a = n" "filename b = n" "a \<noteq> b"
    by blast
  have "a \<notin> set r" using unique_by_name [OF assms(2), of a b] ab by auto
  moreover have "b \<notin> set l" using unique_by_name [OF assms(1), of a b] ab by auto
  ultimately show "n \<in> update_names l r"
    using ab by (force simp: update_names_def reconcile_def Let_def image_iff)
qed

lemma delete_remote_names_iff:
  assumes "distinct (map filename r)"
  shows "n \<in> delete_remote_names l r \<longleftrightarrow> n \<in> filename ` set r \<and> n \<notin> filename ` set l"
proof
  assume "n \<in> delete_remote_names l r"
  then obtain b where b: "b \<in> set r" "b \<notin> set l" "filename b = n"
      and none: "n \<notin> filename ` {a \<in> set l. a \<notin> set r}"
    by (auto simp: delete_remote_names_def reconcile_def Let_def)
  have "n \<notin> filename ` set l"
  proof
    assume "n \<in> filename ` set l"
    then obtain a where a: "a \<in> set l" "filename a = n" by auto
    with none have "a \<in> set r" by force
    with unique_by_name [OF assms, of a b] a b show False by auto
  qed
  with b show "n \<in> filename ` set r \<and> n \<notin> filename ` set l" by auto
next
  assume "n \<in> filename ` set r \<and> n \<notin> filename ` set l"
  then show "n \<in> delete_remote_names l r"
    by (force simp: delete_remote_names_def reconcile_def Let_def image_iff)
qed

lemma upload_names_iff:
  assumes "distinct (map filename l)"
  shows "n \<in> upload_names l r \<longleftrightarrow> n \<in> filename ` set l \<and> n \<notin> filename ` set r"
proof
  assume "n \<in> upload_names l r"
  then obtain a where a: "a \<in> set l" "a \<notin> set r" "filename a = n"
      and none: "n \<notin> filename ` {b \<in> set r. b \<notin> set l}"
    by (auto simp: upload_names_def reconcile_def Let_def)
  have "n \<notin> filename ` set r"
  proof
    assume "n \<in> filename ` set r"
    then obtain b where b: "b \<in> set r" "filename b = n" by auto
    with none have "b \<in> set l" by force
    with unique_by_name [OF assms, of a b] a b show False by auto
  qed
  with a show "n \<in> filename ` set l \<and> n \<notin> filename ` set r" by auto
next
  assume "n \<in> filename ` set l \<and> n \<notin> filename ` set r"
  then show "n \<in> upload_names l r"
    by (force simp: upload_names_def reconcile_def Let_def image_iff)
qed

text \<open>
  Claim C4, amended. For a local and a remote listing in each of which no filename
  occurs twice, every filename of either listing falls into exactly one of the four
  classes: \<open>same\<close> when one entry is in both listings, \<open>update\<close> when both
  listings have the name with differing entries, \<open>delete-remote\<close> when only the
  remote listing has it, \<open>upload\<close> when only the local listing has it.
\<close>

theorem reconcile_partition:
  assumes "distinct (map filename l)"
    and "distinct (map filename r)"
    and "n \<in> filename ` set l \<union> filename ` set r"
  shows "class_count l r n = 1
    \<and> (n \<in> same_names l r \<longleftrightarrow> (\<exists>e. e \<in> set l \<and> e \<in> set r \<and> filename e = n))
    \<and> (n \<in> update_names l r
         \<longleftrightarrow> (\<exists>a b. a \<in> set l \<and> b \<in> set r \<and> filename a = n \<and> filename b = n \<and> a \<noteq> b))
    \<and> (n \<in> delete_remote_names l r \<longleftrightarrow> n \<in> filename ` set r \<and> n \<notin> filename ` set l)
    \<and> (n \<in> upload_names l r \<longleftrightarrow> n \<in> filename ` set l \<and> n \<notin> filename ` set r)"
proof -
  note s = same_names_iff [of n l r]
  note u = update_names_iff [OF assms(1,2), of n]
  note d = delete_remote_names_iff [OF assms(2), of n l]
  note c = upload_names_iff [OF assms(1), of n r]
  have one: "class_count l r n = 1"
  proof (cases "n \<in> filename ` set l")
    case inl: True
    then obtain a where a: "a \<in> set l" "filename a = n" by auto
    show ?thesis
    proof (cases "n \<in> filename ` set r")
      case inr: True
      then obtain b where b: "b \<in> set r" "filename b = n" by auto
      show ?thesis
      proof (cases "a = b")
        case True
        have "n \<in> same_names l r" unfolding s using a b True by auto
        moreover have "n \<notin> update_names l r"
          unfolding u using a b True unique_by_name [OF assms(1)] unique_by_name [OF assms(2)]
          by metis
        moreover have "n \<notin> delete_remote_names l r" unfolding d using inl by simp
        moreover have "n \<notin> upload_names l r" unfolding c using inr by simp
        ultimately show ?thesis by (simp add: class_count_def)
      next
        case False
        have "n \<notin> same_names l r"
          unfolding s using a b False unique_by_name [OF assms(1)] unique_by_name [OF assms(2)]
          by metis
        moreover have "n \<in> update_names l r" unfolding u using a b False by blast
        moreover have "n \<notin> delete_remote_names l r" unfolding d using inl by simp
        moreover have "n \<notin> upload_names l r" unfolding c using inr by simp
        ultimately show ?thesis by (simp add: class_count_def)
      qed
    next
      case notr: False
      have "n \<notin> same_names l r" unfolding s using notr by (metis imageI)
      moreover have "n \<notin> update_names l r" unfolding u using notr by (metis imageI)
      moreover have "n \<notin> delete_remote_names l r" unfolding d using inl by simp
      moreover have "n \<in> upload_names l r" unfolding c using inl notr by simp
      ultimately show ?thesis by (simp add: class_count_def)
    qed
  next
    case notl: False
    with assms(3) have inr: "n \<in> filename ` set r" by auto
    have "n \<notin> same_names l r" unfolding s using notl by (metis imageI)
    moreover have "n \<notin> update_names l r" unfolding u using notl by (metis imageI)
    moreover have "n \<in> delete_remote_names l r" unfolding d using inr notl by simp
    moreover have "n \<notin> upload_names l r" unfolding c using notl by simp
    ultimately show ?thesis by (simp add: class_count_def)
  qed
  show ?thesis using one s u d c by blast
qed

theorem reconcile_partition_witness:
  "class_count
     [\<lparr>filename = ''x.txt'', file_size = 3, sha256 = ''hashA''\<rparr>]
     [\<lparr>filename = ''x.txt'', file_size = 3, sha256 = ''hashB''\<rparr>,
      \<lparr>filename = ''y.txt'', file_size = 5, sha256 = ''hashC''\<rparr>] ''x.txt'' = 1
   \<and> reconcile
     [\<lparr>filename = ''x.txt'', file_size = 3, sha256 = ''hashA''\<rparr>]
     [\<lparr>filename = ''x.txt'', file_size = 3, sha256 = ''hashB''\<rparr>,
      \<lparr>filename = ''y.txt'', file_size = 5, sha256 = ''hashC''\<rparr>]
     = \<lparr>same_on_both = [],
        on_both_different = [\<lparr>filename = ''x.txt'', file_size = 3, sha256 = ''hashA''\<rparr>],
        on_remote_only = [\<lparr>filename = ''y.txt'', file_size = 5, sha256 = ''hashC''\<rparr>],
        on_local_only = []\<rparr>"
proof -
  let ?l = "[\<lparr>filename = ''x.txt'', file_size = 3, sha256 = ''hashA''\<rparr>]"
  let ?r = "[\<lparr>filename = ''x.txt'', file_size = 3, sha256 = ''hashB''\<rparr>,
             \<lparr>filename = ''y.txt'', file_size = 5, sha256 = ''hashC''\<rparr>]"
  have a: "distinct (map filename ?l)" by simp
  have b: "distinct (map filename ?r)" by simp
  have c: "''x.txt'' \<in> filename ` set ?l \<union> filename ` set ?r" by simp
  have d: "reconcile ?l ?r
     = \<lparr>same_on_both = [],
        on_both_different = [\<lparr>filename = ''x.txt'', file_size = 3, sha256 = ''hashA''\<rparr>],
        on_remote_only = [\<lparr>filename = ''y.txt'', file_size = 5, sha256 = ''hashC''\<rparr>],
        on_local_only = []\<rparr>"
    by (simp add: reconcile_def)
  show ?thesis using reconcile_partition [OF a b c] d by simp
qed

text \<open>
  Claim C4 as stated, for every pair of listings, fails where a listing has one
  filename twice: two local files of one base name (one of them in a subdirectory,
  which the recursive listing reports by its base name, see
  \<open>listing_with_duplicate_names\<close>) and a remote that holds one of them. The name is
  then both \<open>same\<close> and \<open>upload\<close>.
\<close>

theorem reconcile_partition_counterexample:
  "''a.txt'' \<in> filename ` set [\<lparr>filename = ''a.txt'', file_size = 2, sha256 = ''h1''\<rparr>,
                                \<lparr>filename = ''a.txt'', file_size = 3, sha256 = ''h2''\<rparr>]
              \<union> filename ` set [\<lparr>filename = ''a.txt'', file_size = 2, sha256 = ''h1''\<rparr>]
   \<and> ''a.txt'' \<in> same_names
        [\<lparr>filename = ''a.txt'', file_size = 2, sha256 = ''h1''\<rparr>,
         \<lparr>filename = ''a.txt'', file_size = 3, sha256 = ''h2''\<rparr>]
        [\<lparr>filename = ''a.txt'', file_size = 2, sha256 = ''h1''\<rparr>]
   \<and> ''a.txt'' \<in> upload_names
        [\<lparr>filename = ''a.txt'', file_size = 2, sha256 = ''h1''\<rparr>,
         \<lparr>filename = ''a.txt'', file_size = 3, sha256 = ''h2''\<rparr>]
        [\<lparr>filename = ''a.txt'', file_size = 2, sha256 = ''h1''\<rparr>]
   \<and> class_count
        [\<lparr>filename = ''a.txt'', file_size = 2, sha256 = ''h1''\<rparr>,
         \<lparr>filename = ''a.txt'', file_size = 3, sha256 = ''h2''\<rparr>]
        [\<lparr>filename = ''a.txt'', file_size = 2, sha256 = ''h1''\<rparr>] ''a.txt'' = 2"
proof -
  let ?l = "[\<lparr>filename = ''a.txt'', file_size = 2, sha256 = ''h1''\<rparr>,
             \<lparr>filename = ''a.txt'', file_size = 3, sha256 = ''h2''\<rparr>]"
  let ?r = "[\<lparr>filename = ''a.txt'', file_size = 2, sha256 = ''h1''\<rparr>]"
  have d: "reconcile ?l ?r
     = \<lparr>same_on_both = [\<lparr>filename = ''a.txt'', file_size = 2, sha256 = ''h1''\<rparr>],
        on_both_different = [],
        on_remote_only = [],
        on_local_only = [\<lparr>filename = ''a.txt'', file_size = 3, sha256 = ''h2''\<rparr>]\<rparr>"
    by (simp add: reconcile_def)
  show ?thesis
    by (simp add: class_count_def same_names_def update_names_def delete_remote_names_def
        upload_names_def d)
qed

lemma listing_with_duplicate_names:
  "enumerate_directory sha
     [([''home''], Directory), ([''home'', ''a.txt''], File ''xx''),
      ([''home'', ''sub''], Directory), ([''home'', ''sub'', ''a.txt''], File ''yyy'')]
     ''/home'' 4
     = Inr [\<lparr>filename = ''a.txt'', file_size = 2, sha256 = sha ''xx''\<rparr>,
            \<lparr>filename = ''a.txt'', file_size = 3, sha256 = sha ''yyy''\<rparr>]"
proof -
  have r1: "read_blocks 4 ''xx'' = Inr [''xx'']" by code_simp
  have r2: "read_blocks 4 ''yyy'' = Inr [''yyy'']" by code_simp
  have g: "glob_all [([''home''], Directory), ([''home'', ''a.txt''], File ''xx''),
      ([''home'', ''sub''], Directory), ([''home'', ''sub'', ''a.txt''], File ''yyy'')] ''/home''
    = Inr [([''home'', ''a.txt''], File ''xx''), ([''home'', ''sub''], Directory),
           ([''home'', ''sub'', ''a.txt''], File ''yyy'')]"
    by code_simp
  show ?thesis
    by (simp add: enumerate_directory_def g hash_file_def r1 r2)
qed

subsection \<open>Updating a file twice\<close>

lemma overlay_add: "overlay b m = m ++ overlay b Map.empty"
proof (induction b arbitrary: m)
  case Nil
  then show ?case by simp
next
  case (Cons kv b)
  obtain k v where kv: "kv = (k, v)" by (cases kv)
  have "overlay (kv # b) m = overlay b (m(k \<mapsto> v))" by (simp add: kv)
  also have "\<dots> = m(k \<mapsto> v) ++ overlay b Map.empty" by (rule Cons.IH)
  also have "\<dots> = m ++ ([k \<mapsto> v] ++ overlay b Map.empty)"
    by (rule ext) (simp add: map_add_def split: option.splits)
  also have "[k \<mapsto> v] ++ overlay b Map.empty = overlay b [k \<mapsto> v]"
    by (rule Cons.IH [symmetric])
  also have "overlay b [k \<mapsto> v] = overlay (kv # b) Map.empty" by (simp add: kv)
  finally show ?case .
qed

lemma map_of_dict_merge: "map_of (dict_merge a b) = overlay b (map_of a)"
  unfolding dict_merge_def
  by (induction b arbitrary: a) (auto simp: update_conv')

lemma distinct_dict_merge:
  "distinct (map fst a) \<Longrightarrow> distinct (map fst (dict_merge a b))"
  unfolding dict_merge_def
  by (induction b arbitrary: a) (auto simp: distinct_update)

lemma sorted_keys_dom:
  assumes "distinct (map fst a)"
  shows "sort (map fst a) = sorted_list_of_set (dom (map_of a))"
proof -
  have "sorted_list_of_set (set (map fst a)) = sort (remdups (map fst a))"
    by (rule sorted_list_of_set_sort_remdups)
  also have "remdups (map fst a) = map fst a"
    using assms by (rule distinct_remdups_id)
  finally show ?thesis by (simp add: dom_map_of_conv_image_fst)
qed

lemma blks_content_cong:
  assumes "distinct (map fst a)" and "distinct (map fst b)" and "map_of a = map_of b"
  shows "blks_content a = blks_content b"
  using assms by (simp add: blks_content_def sorted_keys_dom)


lemma read_blocks_Nil: "- 1 \<le> n \<Longrightarrow> read_blocks n [] = Inr []"
  by (subst read_blocks.simps) (simp add: file_read_def)

lemma full_blocks_pos: "full_blocks n bs \<Longrightarrow> bs \<noteq> [] \<Longrightarrow> 0 < n"
proof (induction n bs rule: full_blocks.induct)
  case (2 n b)
  then have "0 < length b" and "int (length b) \<le> n" by simp_all
  then show ?case by linarith
qed simp_all

lemma read_blocks_full:
  "full_blocks n bs \<Longrightarrow> - 1 \<le> n \<Longrightarrow> read_blocks n (concat bs) = Inr bs"
proof (induction n bs rule: full_blocks.induct)
  case (1 n)
  then show ?case by (simp add: read_blocks_Nil)
next
  case (2 n b)
  then have "0 < length b" and "int (length b) \<le> n" by simp_all
  then have "\<not> n < 0" and "length b \<le> nat n" by linarith+
  then have "file_read n b = Inr (b, [])" by (simp add: file_read_def)
  with 2 show ?case
    by (subst read_blocks.simps) (simp add: read_blocks_Nil)
next
  case (3 n b b' bs)
  then have len: "int (length b) = n" and rest: "full_blocks n (b' # bs)" by simp_all
  from full_blocks_pos [OF rest] have pos: "0 < n" by simp
  with len have ne: "b \<noteq> []" by auto
  have "file_read n (b @ concat (b' # bs)) = Inr (b, concat (b' # bs))"
    using len pos by (auto simp: file_read_def)
  moreover have "read_blocks n (concat (b' # bs)) = Inr (b' # bs)"
    using "3.IH" rest "3.prems"(2) by simp
  ultimately have "read_blocks n (b @ concat (b' # bs)) = Inr (b # b' # bs)"
    using ne by (subst read_blocks.simps) simp
  then show ?case by simp
qed

lemma map_filter_total:
  "(\<And>k. k \<in> set ks \<Longrightarrow> m k \<noteq> None) \<Longrightarrow> List.map_filter m ks = map (the \<circ> m) ks"
  by (induction ks) (auto simp: List.map_filter_simps split: option.splits)

lemma valid_chunking_round_trip:
  assumes "valid_chunking n blks" and "- 1 \<le> n"
  shows "distinct (map fst blks)"
    and "\<exists>blks'. block_list (blks_content blks) n = Inr blks'
           \<and> map_of blks' = map_of blks \<and> distinct (map fst blks')"
proof -
  let ?ks = "sort (map fst blks)"
  let ?m = "map_of blks"
  have ks: "?ks = map int [0..<length blks]"
    and full: "full_blocks n (List.map_filter ?m ?ks)"
    using assms(1) unfolding valid_chunking_def by blast+
  have dk: "distinct ?ks" unfolding ks by (simp add: distinct_map inj_on_def)
  then show d: "distinct (map fst blks)" by simp
  have dom: "set ?ks = dom ?m" by (simp add: dom_map_of_conv_image_fst)
  then have parts: "List.map_filter ?m ?ks = map (the \<circ> ?m) ?ks"
    by (intro map_filter_total) auto
  have len: "length (map (the \<circ> ?m) ?ks) = length blks" by simp
  have content: "blks_content blks = concat (map (the \<circ> ?m) ?ks)"
    by (simp only: blks_content_def parts)
  have rb: "read_blocks n (blks_content blks) = Inr (map (the \<circ> ?m) ?ks)"
    using full assms(2) unfolding content parts by (rule read_blocks_full)
  have bl: "block_list (blks_content blks) n = Inr (zip ?ks (map (the \<circ> ?m) ?ks))"
    unfolding block_list_zip [OF rb] len ks [symmetric] ..
  have "map_of (zip ?ks (map (the \<circ> ?m) ?ks)) = map_of blks"
  proof (rule ext)
    fix k
    show "map_of (zip ?ks (map (the \<circ> ?m) ?ks)) k = ?m k"
      unfolding map_of_zip_map using dom by (cases "?m k") (auto simp del: set_sort)
  qed
  moreover have "distinct (map fst (zip ?ks (map (the \<circ> ?m) ?ks)))"
    using dk by (simp del: distinct_sort)
  ultimately show "\<exists>blks'. block_list (blks_content blks) n = Inr blks'
           \<and> map_of blks' = map_of blks \<and> distinct (map fst blks')"
    using bl by blast
qed

lemma update_file_existing:
  assumes "open_rb fs (Path (directory h) (update_filename info)) = Inr f"
    and "merged_blocks f info = Inr m"
  shows "\<exists>p. open_wb fs (Path (directory h) (update_filename info)) = Inr p
           \<and> update_file h fs info
               = (Inr (StatusMsg UPDATED_FILE_ACTION
                        (''Successfully updated '' @ update_filename info)),
                  AList.update p (File (blks_content m)) fs)"
proof -
  let ?path = "Path (directory h) (update_filename info)"
  from open_rb_open_wb [OF assms(1)] obtain p where p: "open_wb fs ?path = Inr p" ..
  from assms(2) obtain file_blocks
    where fb: "block_list f (update_block_size info) = Inr file_blocks"
      and m: "m = dict_merge file_blocks
                    (dict_merge [] (map (\<lambda>(k, v). (k, b64decode v)) (update_blocks info)))"
    by (auto simp: merged_blocks_def split: sum.splits)
  have "update_file h fs info
               = (Inr (StatusMsg UPDATED_FILE_ACTION
                        (''Successfully updated '' @ update_filename info)),
                  AList.update p (File (blks_content m)) fs)"
    using assms(1) p fb
    by (simp add: update_file_def Let_def open_rb_exists create_block_list_def
        create_file_from_blks_def write_file_def m)
  with p show ?thesis by blast
qed

lemma update_twice: "AList.update k v (AList.update k v' al) = AList.update k v al"
  by (induction al) auto

lemma merged_blocks_again:
  assumes "merged_blocks f info = Inr m"
    and "valid_chunking (update_block_size info) m"
  shows "\<exists>m'. merged_blocks (blks_content m) info = Inr m' \<and> blks_content m' = blks_content m"
proof -
  let ?n = "update_block_size info"
  let ?u = "dict_merge [] (map (\<lambda>(k, v). (k, b64decode v)) (update_blocks info))"
  from assms(1) obtain fb where fb: "block_list f ?n = Inr fb" and m: "m = dict_merge fb ?u"
    by (auto simp: merged_blocks_def split: sum.splits)
  from block_list_Inr [OF fb] obtain bs where "read_blocks ?n f = Inr bs" ..
  then have n: "- 1 \<le> ?n" by (rule read_blocks_size)
  from valid_chunking_round_trip [OF assms(2) n]
  obtain fb' where d: "distinct (map fst m)"
    and fb': "block_list (blks_content m) ?n = Inr fb'"
    and same_fb: "map_of fb' = map_of m"
    and dfb': "distinct (map fst fb')"
    by blast
  let ?m' = "dict_merge fb' ?u"
  have m': "merged_blocks (blks_content m) info = Inr ?m'"
    by (simp add: merged_blocks_def fb')
  have m1: "map_of m = map_of fb ++ overlay ?u Map.empty"
    unfolding m map_of_dict_merge by (rule overlay_add)
  have "map_of ?m' = map_of fb' ++ overlay ?u Map.empty"
    unfolding map_of_dict_merge by (rule overlay_add)
  also have "\<dots> = map_of m ++ overlay ?u Map.empty"
    unfolding same_fb ..
  also have "\<dots> = map_of m"
    by (rule ext) (simp add: m1 map_add_def split: option.splits)
  finally have same: "map_of ?m' = map_of m" .
  have "distinct (map fst ?m')"
    using dfb' by (rule distinct_dict_merge)
  then have "blks_content ?m' = blks_content m" using d same by (rule blks_content_cong)
  with m' show ?thesis by blast
qed

text \<open>
  Claim C8, amended. For an existing target file and an UpdateFile payload whose
  merge with the target's blocks is a valid chunking at the payload's block size,
  \<^verbatim>\<open>update_file\<close> applied a second time with the same payload succeeds again and
  leaves the file system, and so the file's content, as the first application left
  it.
\<close>

theorem update_file_twice:
  assumes "open_rb fs (Path (directory h) (update_filename info)) = Inr f"
    and "merged_blocks f info = Inr m"
    and "valid_chunking (update_block_size info) m"
  shows "\<exists>r fs'. update_file h fs info = (Inr r, fs')
            \<and> update_file h fs' info = (Inr r, fs')
            \<and> open_rb fs' (Path (directory h) (update_filename info)) = Inr (blks_content m)"
proof -
  let ?path = "Path (directory h) (update_filename info)"
  let ?f1 = "blks_content m"
  let ?r = "StatusMsg UPDATED_FILE_ACTION (''Successfully updated '' @ update_filename info)"
  from update_file_existing [OF assms(1,2)] obtain p
    where p: "open_wb fs ?path = Inr p"
      and first: "update_file h fs info = (Inr ?r, AList.update p (File ?f1) fs)"
    by blast
  let ?fs1 = "AList.update p (File ?f1) fs"
  have o1: "open_rb ?fs1 ?path = Inr ?f1"
    using p by (rule open_rb_written)
  have p1: "open_wb ?fs1 ?path = Inr p"
    using p by (rule open_wb_written)
  from merged_blocks_again [OF assms(2,3)] obtain m'
    where m': "merged_blocks ?f1 info = Inr m'" and same: "blks_content m' = ?f1"
    by blast
  from update_file_existing [OF o1 m'] p1
  have "update_file h ?fs1 info = (Inr ?r, AList.update p (File (blks_content m')) ?fs1)"
    by auto
  also have "AList.update p (File (blks_content m')) ?fs1 = ?fs1"
    unfolding same by (rule update_twice)
  finally have second: "update_file h ?fs1 info = (Inr ?r, ?fs1)" .
  from first second o1 show ?thesis by blast
qed

theorem update_file_twice_witness:
  "update_file \<lparr>directory = ''/srv'', handler_block_size = 4\<rparr>
      [([''srv''], Directory), ([''srv'', ''f.txt''], File ''aabbc'')]
      \<lparr>update_filename = ''f.txt'', update_block_size = 2,
       update_blocks = [(1, B64 ''xy''), (2, B64 ''zz''), (3, B64 ''w'')]\<rparr>
     = (Inr (StatusMsg UPDATED_FILE_ACTION ''Successfully updated f.txt''),
        [([''srv''], Directory), ([''srv'', ''f.txt''], File ''aaxyzzw'')])
   \<and> update_file \<lparr>directory = ''/srv'', handler_block_size = 4\<rparr>
      [([''srv''], Directory), ([''srv'', ''f.txt''], File ''aaxyzzw'')]
      \<lparr>update_filename = ''f.txt'', update_block_size = 2,
       update_blocks = [(1, B64 ''xy''), (2, B64 ''zz''), (3, B64 ''w'')]\<rparr>
     = (Inr (StatusMsg UPDATED_FILE_ACTION ''Successfully updated f.txt''),
        [([''srv''], Directory), ([''srv'', ''f.txt''], File ''aaxyzzw'')])"
proof -
  let ?h = "\<lparr>directory = ''/srv'', handler_block_size = 4\<rparr>"
  let ?fs = "[([''srv''], Directory), ([''srv'', ''f.txt''], File ''aabbc'')]"
  let ?info = "\<lparr>update_filename = ''f.txt'', update_block_size = 2,
                update_blocks = [(1, B64 ''xy''), (2, B64 ''zz''), (3, B64 ''w'')]\<rparr>"
  let ?m = "[(0, ''aa''), (1, ''xy''), (2, ''zz''), (3, ''w'')]"
  have a: "open_rb ?fs (Path (directory ?h) (update_filename ?info)) = Inr ''aabbc''"
    by code_simp
  have b: "merged_blocks ''aabbc'' ?info = Inr ?m"
    by code_simp
  have c: "valid_chunking (update_block_size ?info) ?m"
    by code_simp
  have d: "update_file ?h ?fs ?info
     = (Inr (StatusMsg UPDATED_FILE_ACTION ''Successfully updated f.txt''),
        [([''srv''], Directory), ([''srv'', ''f.txt''], File ''aaxyzzw'')])"
    by code_simp
  show ?thesis using update_file_twice [OF a b c] d by auto
qed

text \<open>
  Claim C8 as stated, for every payload, fails.
  The target holds \<open>aabb\<close>, the block size is 2 and the payload replaces block 0 by
  the single byte \<open>x\<close> (what a requester whose file has shrunk to \<open>x\<close> sends). Once
  gives \<open>xbb\<close>, twice gives \<open>xb\<close>.
\<close>

theorem update_file_twice_counterexample:
  "update_file \<lparr>directory = ''/srv'', handler_block_size = 4\<rparr>
      [([''srv''], Directory), ([''srv'', ''f.txt''], File ''aabb'')]
      \<lparr>update_filename = ''f.txt'', update_block_size = 2, update_blocks = [(0, B64 ''x'')]\<rparr>
     = (Inr (StatusMsg UPDATED_FILE_ACTION ''Successfully updated f.txt''),
        [([''srv''], Directory), ([''srv'', ''f.txt''], File ''xbb'')])
   \<and> update_file \<lparr>directory = ''/srv'', handler_block_size = 4\<rparr>
      [([''srv''], Directory), ([''srv'', ''f.txt''], File ''xbb'')]
      \<lparr>update_filename = ''f.txt'', update_block_size = 2, update_blocks = [(0, B64 ''x'')]\<rparr>
     = (Inr (StatusMsg UPDATED_FILE_ACTION ''Successfully updated f.txt''),
        [([''srv''], Directory), ([''srv'', ''f.txt''], File ''xb'')])"
  by code_simp

subsection \<open>Wire framing\<close>
















end
